theory Spec2Isabelle
  imports Complex_Main
begin

section \<open>Errors\<close>

text \<open>
  Every exception class that the modelled functions can raise.  The classes of the
  repository carry the message of the \<^verbatim>\<open>raise\<close>; \<open>TypeError\<close> and
  \<open>IndexError\<close> are raised by the interpreter itself (concatenating or iterating
  \<^verbatim>\<open>None\<close>, \<^verbatim>\<open>list.pop\<close> out of range) and carry no message of the
  repository; \<open>MayaError\<close> is any exception raised inside a \<^verbatim>\<open>maya.cmds\<close> call
  (a node or a plug that does not exist).
\<close>

datatype error =
    InvalidMirrorMapping string
  | InvalidPose string
  | InvalidPoseIndex string
  | InvalidNodeType string
  | PoseBlenderPoseError string
  | RuntimeError string
  | TypeError
  | IndexError
  | MayaError

section \<open>Mirror mapping (\<^verbatim>\<open>model/mirror_mapping.py\<close>)\<close>

subsection \<open>The fragment of regular expressions used by the naming conventions\<close>

text \<open>
  A naming convention is a sequence of capture groups; a group is optional
  (\<^verbatim>\<open>(...)?\<close>) or not and holds a sequence of character classes, each matched once or
  greedily one or more times.  The matcher lists every way to match in the order a
  backtracking engine tries them, so the head of the list is what \<^verbatim>\<open>re.match\<close>
  returns; a group that did not take part in the match is \<open>None\<close>, as in
  \<^verbatim>\<open>match.groups()\<close>.
\<close>

datatype quant = Once | OneOrMore

type_synonym item = "char list \<times> quant"

type_synonym capture_group = "bool \<times> item list"

type_synonym expression = "capture_group list"

fun plus_matches :: "char list \<Rightarrow> string \<Rightarrow> (string \<times> string) list" where
  "plus_matches cls [] = []"
| "plus_matches cls (c # r) =
     (if c \<in> set cls
      then map (\<lambda>(m, r'). (c # m, r')) (plus_matches cls r) @ [([c], r)]
      else [])"

fun item_matches :: "item \<Rightarrow> string \<Rightarrow> (string \<times> string) list" where
  "item_matches (cls, Once) [] = []"
| "item_matches (cls, Once) (c # r) = (if c \<in> set cls then [([c], r)] else [])"
| "item_matches (cls, OneOrMore) s = plus_matches cls s"

fun items_matches :: "item list \<Rightarrow> string \<Rightarrow> (string \<times> string) list" where
  "items_matches [] s = [([], s)]"
| "items_matches (i # is) s =
     concat (map (\<lambda>(m, r). map (\<lambda>(m', r'). (m @ m', r')) (items_matches is r))
                 (item_matches i s))"

fun groups_matches :: "expression \<Rightarrow> string \<Rightarrow> string option list list" where
  "groups_matches [] s = [[]]"
| "groups_matches ((optional, its) # gs) s =
     concat (map (\<lambda>(m, r). map (\<lambda>cs. Some m # cs) (groups_matches gs r))
                 (items_matches its s))
     @ (if optional then map (\<lambda>cs. None # cs) (groups_matches gs s) else [])"

definition re_match :: "expression \<Rightarrow> string \<Rightarrow> string option list option" where
  "re_match e s = (case groups_matches e s of [] \<Rightarrow> None | g # _ \<Rightarrow> Some g)"

subsection \<open>The mapping object\<close>

datatype side = LEFT | RIGHT

record side_syntax =
  solver_syntax :: string
  transform_syntax :: string

record mapping_data =
  solver_expression :: expression
  transform_expression :: expression
  left :: side_syntax
  right :: side_syntax

record MirrorMapping =
  mapping :: mapping_data
  source_side :: side
  source_solver_syntax :: string
  source_transform_syntax :: string
  target_solver_syntax :: string
  target_transform_syntax :: string

text \<open>The setter of the \<^verbatim>\<open>source_side\<close> property.\<close>

definition set_source_side :: "MirrorMapping \<Rightarrow> side \<Rightarrow> MirrorMapping" where
  "set_source_side m sd =
     (let source_mapping_data = (case sd of LEFT \<Rightarrow> left (mapping m) | RIGHT \<Rightarrow> right (mapping m));
          target_mapping_data = (if sd = LEFT then right (mapping m) else left (mapping m))
      in m\<lparr>source_side := sd,
            source_solver_syntax := solver_syntax source_mapping_data,
            source_transform_syntax := transform_syntax source_mapping_data,
            target_solver_syntax := solver_syntax target_mapping_data,
            target_transform_syntax := transform_syntax target_mapping_data\<rparr>)"

text \<open>\<^verbatim>\<open>MirrorMapping.__init__\<close>, from the loaded document and the source side.\<close>

definition new_MirrorMapping :: "mapping_data \<Rightarrow> side \<Rightarrow> MirrorMapping" where
  "new_MirrorMapping d sd =
     set_source_side
       \<lparr>mapping = d, source_side = sd, source_solver_syntax = [],
        source_transform_syntax = [], target_solver_syntax = [],
        target_transform_syntax = []\<rparr> sd"

definition swap_sides :: "MirrorMapping \<Rightarrow> MirrorMapping" where
  "swap_sides m =
     (let new_target = (if source_side m = RIGHT then LEFT else RIGHT)
      in set_source_side m new_target)"

subsection \<open>The MetaHuman example mapping of the module's docstring\<close>

definition alnum :: "char list" where
  "alnum = ''abcdefghijklmnopqrstuvwxyzABCDEFGHIJKLMNOPQRSTUVWXYZ0123456789''"

text \<open>
  \<^verbatim>\<open>(?P<prefix>[a-zA-Z0-9]+)?(?P<side>_[lr]{1}_)(?P<suffix>[a-zA-Z0-9]+)\<close>
\<close>

definition metahuman_expression :: expression where
  "metahuman_expression =
     [(True, [(alnum, OneOrMore)]),
      (False, [(''_'', Once), (''lr'', Once), (''_'', Once)]),
      (False, [(alnum, OneOrMore)])]"

definition metahuman :: mapping_data where
  "metahuman =
     \<lparr>solver_expression = metahuman_expression,
      transform_expression = metahuman_expression,
      left = \<lparr>solver_syntax = ''_l_'', transform_syntax = ''_l_''\<rparr>,
      right = \<lparr>solver_syntax = ''_r_'', transform_syntax = ''_r_''\<rparr>\<rparr>"

section \<open>Mirrored solver name (\<^verbatim>\<open>RBFNode._get_mirrored_solver_name\<close>)\<close>

text \<open>
  The loop over \<^verbatim>\<open>match.groups()\<close>.  The accumulator is
  \<^verbatim>\<open>target_rbf_solver_name\<close>; the mapping is threaded through because the
  \<^verbatim>\<open>elif\<close> branch swaps its sides.  Appending a group that is \<^verbatim>\<open>None\<close> to a
  string raises \<open>TypeError\<close>.
\<close>

fun mirror_groups ::
  "string option list \<Rightarrow> MirrorMapping \<Rightarrow> string \<Rightarrow> (error + string) \<times> MirrorMapping" where
  "mirror_groups [] m acc = (Inr acc, m)"
| "mirror_groups (g # gs) m acc =
     (if g = Some (source_solver_syntax m)
      then mirror_groups gs m (acc @ target_solver_syntax m)
      else if g = Some (target_solver_syntax m)
      then (let grp = source_solver_syntax m; m' = swap_sides m
            in mirror_groups gs m' (acc @ grp))
      else (case g of
              None \<Rightarrow> (Inl TypeError, m)
            | Some grp \<Rightarrow> mirror_groups gs m (acc @ grp)))"

definition get_mirrored_solver_name ::
  "MirrorMapping \<Rightarrow> string \<Rightarrow> (error + string) \<times> MirrorMapping" where
  "get_mirrored_solver_name mirror_mapping self =
     (case re_match (solver_expression (mapping mirror_mapping)) self of
        None \<Rightarrow>
          (Inl (InvalidMirrorMapping
                  (''Unable to mirror solver '' @ [CHR 0x27] @ self @ [CHR 0x27]
                   @ ''. The naming conventions do not match the mirror mapping specified'')),
           mirror_mapping)
      | Some groups \<Rightarrow> mirror_groups groups mirror_mapping [])"

text \<open>
  The claim's own description of the result: the captured groups concatenated, with
  the two side tokens exchanged.
\<close>

definition substitute_solver_side :: "mapping_data \<Rightarrow> string \<Rightarrow> string" where
  "substitute_solver_side d g =
     (if g = solver_syntax (left d) then solver_syntax (right d)
      else if g = solver_syntax (right d) then solver_syntax (left d)
      else g)"

section \<open>Mirror math (\<^verbatim>\<open>RBFNode.mirror_pose\<close>, the rotation of a driven transform)\<close>

subsection \<open>Matrices, quaternions and the host's conversions\<close>

text \<open>
  An \<^verbatim>\<open>MMatrix\<close> is four rows of four numbers; the reals stand for the host's
  doubles.  The product is the one of \<^verbatim>\<open>MMatrix.__mul__\<close>.  A quaternion is
  \<open>(x, y, z, w)\<close>, an Euler rotation or a vector \<open>(x, y, z)\<close>.
\<close>

type_synonym vec3 = "real \<times> real \<times> real"

type_synonym vec4 = "real \<times> real \<times> real \<times> real"

type_synonym MMatrix = "vec4 \<times> vec4 \<times> vec4 \<times> vec4"

type_synonym MQuaternion = "real \<times> real \<times> real \<times> real"

definition kIdentity :: MMatrix where
  "kIdentity = ((1, 0, 0, 0), (0, 1, 0, 0), (0, 0, 1, 0), (0, 0, 0, 1))"

fun row_times :: "vec4 \<Rightarrow> MMatrix \<Rightarrow> vec4" where
  "row_times (a, b, c, d)
     ((b00, b01, b02, b03), (b10, b11, b12, b13), (b20, b21, b22, b23), (b30, b31, b32, b33)) =
     (a * b00 + b * b10 + c * b20 + d * b30,
      a * b01 + b * b11 + c * b21 + d * b31,
      a * b02 + b * b12 + c * b22 + d * b32,
      a * b03 + b * b13 + c * b23 + d * b33)"

fun mat_mult :: "MMatrix \<Rightarrow> MMatrix \<Rightarrow> MMatrix" where
  "mat_mult (r0, r1, r2, r3) B =
     (row_times r0 B, row_times r1 B, row_times r2 B, row_times r3 B)"

text \<open>
  The calls into \<^verbatim>\<open>maya.api.OpenMaya\<close> whose code is not part of the repository
  are parameters of the model:
  \<^item> \<open>matrix_inverse\<close>: \<^verbatim>\<open>MMatrix.inverse()\<close>;
  \<^item> \<open>euler_as_matrix\<close>: \<^verbatim>\<open>setRotation(MEulerRotation(x, y, z))\<close> on an identity
    \<^verbatim>\<open>MTransformationMatrix\<close>, then \<^verbatim>\<open>asMatrix()\<close>;
  \<^item> \<open>rotation_quaternion\<close>: \<^verbatim>\<open>MTransformationMatrix(m).rotation(asQuaternion=True)\<close>;
  \<^item> \<open>quaternion_as_matrix\<close>: \<^verbatim>\<open>MQuaternion.asMatrix()\<close>;
  \<^item> \<open>rotation_euler\<close>: \<^verbatim>\<open>MTransformationMatrix(m).rotation(asQuaternion=False)\<close>.
\<close>

record OpenMaya =
  matrix_inverse :: "MMatrix \<Rightarrow> MMatrix"
  euler_as_matrix :: "vec3 \<Rightarrow> MMatrix"
  rotation_quaternion :: "MMatrix \<Rightarrow> MQuaternion"
  quaternion_as_matrix :: "MQuaternion \<Rightarrow> MMatrix"
  rotation_euler :: "MMatrix \<Rightarrow> vec3"

text \<open>\<^verbatim>\<open>math.radians\<close> and \<^verbatim>\<open>math.degrees\<close>.\<close>

definition radians :: "real \<Rightarrow> real" where
  "radians d = d * pi / 180"

definition degrees :: "real \<Rightarrow> real" where
  "degrees r = r * 180 / pi"

subsection \<open>The rotation written onto the mirrored transform\<close>

text \<open>
  Lines 938 to 967 of \<^verbatim>\<open>v2/model/api.py\<close>: from the parent matrices of the source
  and of the target transform and the source's \<^verbatim>\<open>rotate\<close> attribute (degrees) to
  the value set on the target's \<^verbatim>\<open>rotate\<close> attribute.
\<close>

definition mirror_rotation :: "OpenMaya \<Rightarrow> MMatrix \<Rightarrow> MMatrix \<Rightarrow> vec3 \<Rightarrow> vec3" where
  "mirror_rotation om source_parent_matrix target_parent_matrix rotate_deg =
     (let euler = (case rotate_deg of (rx, ry, rz) \<Rightarrow> (radians rx, radians ry, radians rz));
          driver_matrix = euler_as_matrix om euler;
          world_matrix = mat_mult driver_matrix source_parent_matrix;
          rot_matrix = mat_mult (matrix_inverse om source_parent_matrix) world_matrix;
          rot = rotation_quaternion om rot_matrix;
          rot = (case rot of (x, y, z, w) \<Rightarrow> (x * (- 1), y, z, w));
          rot = (case rot of (x, y, z, w) \<Rightarrow> (x, y, z, w * (- 1)));
          rot_matrix = quaternion_as_matrix om rot;
          final_rot_matrix =
            mat_mult (mat_mult target_parent_matrix rot_matrix)
                     (matrix_inverse om target_parent_matrix);
          rot = rotation_euler om final_rot_matrix
      in (case rot of (ex, ey, ez) \<Rightarrow> (degrees ex, degrees ey, degrees ez)))"

text \<open>
  The steps as the specification words them: Euler angles to a rotation matrix, into
  world space through the source parent matrix, to a quaternion, X and W negated, back to a
  matrix, into the target's local space through the inverse of the target parent matrix,
  back to Euler degrees.
\<close>

definition mirror_rotation_spec :: "OpenMaya \<Rightarrow> MMatrix \<Rightarrow> MMatrix \<Rightarrow> vec3 \<Rightarrow> vec3" where
  "mirror_rotation_spec om source_parent_matrix target_parent_matrix rotate_deg =
     (let rotation_matrix =
            euler_as_matrix om
              (case rotate_deg of (rx, ry, rz) \<Rightarrow> (radians rx, radians ry, radians rz));
          world = mat_mult rotation_matrix source_parent_matrix;
          q = rotation_quaternion om world;
          negated = (case q of (x, y, z, w) \<Rightarrow> (- x, y, z, - w));
          reconstituted = quaternion_as_matrix om negated;
          local = mat_mult reconstituted (matrix_inverse om target_parent_matrix)
      in (case rotation_euler om local of (ex, ey, ez) \<Rightarrow> (degrees ex, degrees ey, degrees ez)))"

subsection \<open>A reference host\<close>

text \<open>
  The textbook formulas in exact arithmetic, for row vectors and the rotation order
  xyz (the conventions of the examples in \<^verbatim>\<open>v2/model/utils.py\<close>: a rotation of 90
  degrees about X is the matrix with rows \<open>(1,0,0,0)\<close>, \<open>(0,0,1,0)\<close>, \<open>(0,-1,0,0)\<close>,
  \<open>(0,0,0,1)\<close> and the quaternion \<open>(0.7071, 0, 0, 0.7071)\<close>).  It serves to exhibit
  concrete inputs.
\<close>

definition det3 :: "real \<Rightarrow> real \<Rightarrow> real \<Rightarrow> real \<Rightarrow> real \<Rightarrow> real \<Rightarrow> real \<Rightarrow> real \<Rightarrow> real \<Rightarrow> real" where
  "det3 a b c d e f g h i = a * (e * i - f * h) - b * (d * i - f * g) + c * (d * h - e * g)"

fun det4 :: "MMatrix \<Rightarrow> real" where
  "det4 ((a00, a01, a02, a03), (a10, a11, a12, a13), (a20, a21, a22, a23), (a30, a31, a32, a33)) =
     a00 * det3 a11 a12 a13 a21 a22 a23 a31 a32 a33 - a01 * det3 a10 a12 a13 a20 a22 a23 a30 a32 a33 + a02 * det3 a10 a11 a13 a20 a21 a23 a30 a31 a33 - a03 * det3 a10 a11 a12 a20 a21 a22 a30 a31 a32"

fun std_inverse :: "MMatrix \<Rightarrow> MMatrix" where
  "std_inverse ((a00, a01, a02, a03), (a10, a11, a12, a13), (a20, a21, a22, a23), (a30, a31, a32, a33)) =
     (let d = det4 ((a00, a01, a02, a03), (a10, a11, a12, a13), (a20, a21, a22, a23), (a30, a31, a32, a33))
      in if d = 0 then ((a00, a01, a02, a03), (a10, a11, a12, a13), (a20, a21, a22, a23), (a30, a31, a32, a33))
         else
         (
          (det3 a11 a12 a13 a21 a22 a23 a31 a32 a33 / d, - det3 a01 a02 a03 a21 a22 a23 a31 a32 a33 / d, det3 a01 a02 a03 a11 a12 a13 a31 a32 a33 / d, - det3 a01 a02 a03 a11 a12 a13 a21 a22 a23 / d),
          (- det3 a10 a12 a13 a20 a22 a23 a30 a32 a33 / d, det3 a00 a02 a03 a20 a22 a23 a30 a32 a33 / d, - det3 a00 a02 a03 a10 a12 a13 a30 a32 a33 / d, det3 a00 a02 a03 a10 a12 a13 a20 a22 a23 / d),
          (det3 a10 a11 a13 a20 a21 a23 a30 a31 a33 / d, - det3 a00 a01 a03 a20 a21 a23 a30 a31 a33 / d, det3 a00 a01 a03 a10 a11 a13 a30 a31 a33 / d, - det3 a00 a01 a03 a10 a11 a13 a20 a21 a23 / d),
          (- det3 a10 a11 a12 a20 a21 a22 a30 a31 a32 / d, det3 a00 a01 a02 a20 a21 a22 a30 a31 a32 / d, - det3 a00 a01 a02 a10 a11 a12 a30 a31 a32 / d, det3 a00 a01 a02 a10 a11 a12 a20 a21 a22 / d)))"

definition std_euler_as_matrix :: "vec3 \<Rightarrow> MMatrix" where
  "std_euler_as_matrix e =
     (case e of (ax, ay, az) \<Rightarrow>
        mat_mult ((1, 0, 0, 0), (0, cos ax, sin ax, 0), (0, - sin ax, cos ax, 0), (0, 0, 0, 1))
          (mat_mult ((cos ay, 0, - sin ay, 0), (0, 1, 0, 0), (sin ay, 0, cos ay, 0), (0, 0, 0, 1))
                    ((cos az, sin az, 0, 0), (- sin az, cos az, 0, 0), (0, 0, 1, 0), (0, 0, 0, 1))))"

fun std_rotation_quaternion :: "MMatrix \<Rightarrow> MQuaternion" where
  "std_rotation_quaternion
     ((m00, m01, m02, m03), (m10, m11, m12, m13), (m20, m21, m22, m23), r3) =
     (if m00 + m11 + m22 > 0 then
        (let s = 2 * sqrt (1 + m00 + m11 + m22)
         in ((m12 - m21) / s, (m20 - m02) / s, (m01 - m10) / s, s / 4))
      else if m00 > m11 \<and> m00 > m22 then
        (let s = 2 * sqrt (1 + m00 - m11 - m22)
         in (s / 4, (m01 + m10) / s, (m02 + m20) / s, (m12 - m21) / s))
      else if m11 > m22 then
        (let s = 2 * sqrt (1 + m11 - m00 - m22)
         in ((m01 + m10) / s, s / 4, (m12 + m21) / s, (m20 - m02) / s))
      else
        (let s = 2 * sqrt (1 + m22 - m00 - m11)
         in ((m02 + m20) / s, (m12 + m21) / s, s / 4, (m01 - m10) / s)))"

fun std_quaternion_as_matrix :: "MQuaternion \<Rightarrow> MMatrix" where
  "std_quaternion_as_matrix (x, y, z, w) =
     ((1 - 2 * (y * y + z * z), 2 * (x * y + w * z), 2 * (x * z - w * y), 0),
      (2 * (x * y - w * z), 1 - 2 * (x * x + z * z), 2 * (y * z + w * x), 0),
      (2 * (x * z + w * y), 2 * (y * z - w * x), 1 - 2 * (x * x + y * y), 0),
      (0, 0, 0, 1))"

definition atan2 :: "real \<Rightarrow> real \<Rightarrow> real" where
  "atan2 y x =
     (if x > 0 then arctan (y / x)
      else if x < 0 \<and> y \<ge> 0 then arctan (y / x) + pi
      else if x < 0 then arctan (y / x) - pi
      else if y > 0 then pi / 2
      else if y < 0 then - pi / 2
      else 0)"

fun std_rotation_euler :: "MMatrix \<Rightarrow> vec3" where
  "std_rotation_euler
     ((m00, m01, m02, m03), (m10, m11, m12, m13), (m20, m21, m22, m23), r3) =
     (atan2 m12 m22, atan2 (- m02) (sqrt (m00 * m00 + m01 * m01)), atan2 m01 m00)"

definition std_OpenMaya :: OpenMaya where
  "std_OpenMaya =
     \<lparr>matrix_inverse = std_inverse,
      euler_as_matrix = std_euler_as_matrix,
      rotation_quaternion = std_rotation_quaternion,
      quaternion_as_matrix = std_quaternion_as_matrix,
      rotation_euler = std_rotation_euler\<rparr>"

text \<open>A half turn about Z.\<close>

definition half_turn_z :: MMatrix where
  "half_turn_z = ((- 1, 0, 0, 0), (0, - 1, 0, 0), (0, 0, 1, 0), (0, 0, 0, 1))"


section \<open>The host scene\<close>

text \<open>
  The solver and pose-blender nodes are native nodes of the host; the repository reads
  and writes their attributes through \<^verbatim>\<open>maya.cmds\<close>.  The model keeps the
  attributes that the modelled methods touch:
  \<^item> a multi-valued attribute is a sparse array, a list of (logical index, element)
    pairs in ascending order of index; \<^verbatim>\<open>getAttr(size=True)\<close> is its length,
    \<^verbatim>\<open>getAttr(multiIndices=True)\<close> its indices, writing to an element that does not
    exist creates it, reading one yields the attribute's default;
  \<^item> a connection is stored at its destination: the driver connected to
    \<^verbatim>\<open>inputs[i]\<close>, the pose blenders connected to \<^verbatim>\<open>poseBlenders\<close> (each with its
    own attributes), the driven transform of a pose blender;
  \<^item> \<^verbatim>\<open>listConnections\<close> returns \<^verbatim>\<open>None\<close>, not an empty list, when nothing is
    connected (hence the \<^verbatim>\<open>or []\<close> on some call sites of the source);
  \<^item> a matrix is the list of floats that \<^verbatim>\<open>cmds\<close> returns and accepts; the reals
    stand for the floats.
  Left out: blend shapes (the scenes have none, so \<^verbatim>\<open>delete_blendshape\<close> does nothing
  and \<^verbatim>\<open>blendshape_data\<close> is empty), the \<^verbatim>\<open>outputs\<close> and \<^verbatim>\<open>weights\<close> plugs and
  their connections, the per-pose function type, distance method and scale factor (read
  and serialized, never written by the repository), the selection, the log, and the
  evaluation of the solver by the host.
\<close>

type_synonym matrix = "real list"

type_synonym 'a multi = "(int \<times> 'a) list"

definition multiIndices :: "'a multi \<Rightarrow> int list" where
  "multiIndices m = map fst m"

fun setElement :: "int \<Rightarrow> 'a \<Rightarrow> 'a multi \<Rightarrow> 'a multi" where
  "setElement i v [] = [(i, v)]"
| "setElement i v ((k, x) # m) =
     (if i = k then (i, v) # m
      else if i < k then (i, v) # (k, x) # m
      else (k, x) # setElement i v m)"

definition removeMultiInstance :: "int \<Rightarrow> 'a multi \<Rightarrow> 'a multi" where
  "removeMultiInstance i m = filter (\<lambda>(k, x). k \<noteq> i) m"

definition element_at :: "'a \<Rightarrow> 'a multi \<Rightarrow> int \<Rightarrow> 'a" where
  "element_at dflt m i = (case map_of m i of Some v \<Rightarrow> v | None \<Rightarrow> dflt)"

text \<open>The default of a matrix attribute.\<close>

definition identity_matrix :: matrix where
  "identity_matrix = [1, 0, 0, 0, 0, 1, 0, 0, 0, 0, 1, 0, 0, 0, 0, 1]"

record target =
  targetName :: string
  targetValues :: "matrix multi"
  targetControllers :: "matrix multi"
  targetEnable :: bool

text \<open>An element of \<^verbatim>\<open>targets\<close> as the host creates it.\<close>

definition new_target :: target where
  "new_target =
     \<lparr>targetName = [], targetValues = [], targetControllers = [], targetEnable = True\<rparr>"

record blender_node =
  drivenTransform :: "string option"
  basePose :: matrix
  inMatrix :: matrix
  blender_poses :: "matrix multi"
  outMatrix_connected :: bool

record solver_node =
  inputs :: "string option multi"
  inputsRest :: "matrix multi"
  inputsControllers :: "string option multi"
  targets :: "target multi"
  poseBlenders :: "(string \<times> blender_node) list option"
  mode :: int
  radius :: real
  automaticRadius :: bool
  weightThreshold :: real
  distanceMethod :: int
  normalizeMethod :: int
  functionType :: int
  twistAxis :: int
  inputMode :: int

text \<open>
  The scene: the solver nodes in the order of \<^verbatim>\<open>cmds.ls(type='UERBFSolverNode')\<close>,
  and the transform nodes with their local matrices
  (\<^verbatim>\<open>cmds.xform(node, query=True, matrix=True, objectSpace=True)\<close>).
\<close>

record scene =
  solvers :: "(string \<times> solver_node) list"
  transforms :: "(string \<times> matrix) list"

text \<open>A Python dictionary that keeps insertion order: assigning to a key.\<close>

fun dict_set :: "'k \<Rightarrow> 'v \<Rightarrow> ('k \<times> 'v) list \<Rightarrow> ('k \<times> 'v) list" where
  "dict_set k v [] = [(k, v)]"
| "dict_set k v ((k', v') # d) = (if k' = k then (k, v) # d else (k', v') # dict_set k v d)"

fun mapM :: "('a \<Rightarrow> error + 'b) \<Rightarrow> 'a list \<Rightarrow> error + 'b list" where
  "mapM f [] = Inr []"
| "mapM f (x # xs) =
     (case f x of
        Inl e \<Rightarrow> Inl e
      | Inr y \<Rightarrow> (case mapM f xs of Inl e \<Rightarrow> Inl e | Inr ys \<Rightarrow> Inr (y # ys)))"

text \<open>A \<^verbatim>\<open>for\<close> loop whose body updates the state and may raise.\<close>

fun for_loop :: "('a \<Rightarrow> 'st \<Rightarrow> error option \<times> 'st) \<Rightarrow> 'a list \<Rightarrow> 'st \<Rightarrow> error option \<times> 'st" where
  "for_loop body [] st = (None, st)"
| "for_loop body (x # xs) st =
     (case body x st of
        (Some e, st') \<Rightarrow> (Some e, st')
      | (None, st') \<Rightarrow> for_loop body xs st')"

definition quoted :: "string \<Rightarrow> string" where
  "quoted s = [CHR 0x22] @ s @ [CHR 0x22]"

text \<open>\<^verbatim>\<open>cmds.xform(node, query=True, matrix=True, objectSpace=True)\<close>\<close>

definition xform_query :: "(string \<times> matrix) list \<Rightarrow> string \<Rightarrow> error + matrix" where
  "xform_query tr node = (case map_of tr node of None \<Rightarrow> Inl MayaError | Some m \<Rightarrow> Inr m)"

text \<open>\<^verbatim>\<open>cmds.xform(node, matrix=m)\<close>\<close>

definition xform_set :: "(string \<times> matrix) list \<Rightarrow> string \<Rightarrow> matrix \<Rightarrow> error + (string \<times> matrix) list" where
  "xform_set tr node m =
     (case map_of tr node of None \<Rightarrow> Inl MayaError | Some old \<Rightarrow> Inr (dict_set node m tr))"

section \<open>Pose blender (\<^verbatim>\<open>v2/model/pose_blender.py\<close>)\<close>

definition get_pose :: "blender_node \<Rightarrow> int \<Rightarrow> matrix" where
  "get_pose b index = element_at identity_matrix (blender_poses b) index"

definition get_poses :: "blender_node \<Rightarrow> matrix list" where
  "get_poses b = map snd (blender_poses b)"

text \<open>
  \<^verbatim>\<open>len(cmds.getAttr(self.poses_attr, multiIndices=True) or [0]) - 1\<close>
\<close>

definition next_index :: "'a multi \<Rightarrow> int" where
  "next_index m = (if multiIndices m = [] then 0 else int (length (multiIndices m)) - 1)"

definition set_pose ::
  "(string \<times> matrix) list \<Rightarrow> blender_node \<Rightarrow> int \<Rightarrow> string \<Rightarrow> matrix option \<Rightarrow> error + blender_node" where
  "set_pose tr b index pose_name matrix =
     (if index < 0 \<and> pose_name \<noteq> [] then Inr b
      else
        (let index = (if index < 0 then next_index (blender_poses b) else index)
         in case (case matrix of
                    Some m \<Rightarrow> Inr m
                  | None \<Rightarrow> (case drivenTransform b of
                               None \<Rightarrow> Inl MayaError
                             | Some t \<Rightarrow> xform_query tr t)) of
              Inl e \<Rightarrow> Inl e
            | Inr m \<Rightarrow> Inr (b\<lparr>blender_poses := setElement index m (blender_poses b)\<rparr>)))"

definition blender_add_pose_from_current ::
  "(string \<times> matrix) list \<Rightarrow> blender_node \<Rightarrow> string \<Rightarrow> int \<Rightarrow> error + blender_node" where
  "blender_add_pose_from_current tr b pose_name index =
     (let index = (if index < 0 then next_index (blender_poses b) else index)
      in case drivenTransform b of
           None \<Rightarrow>
             Inl (PoseBlenderPoseError
               ''No driven transform associated with this node, unable to get the current matrix'')
         | Some driven_transform \<Rightarrow>
             (case xform_query tr driven_transform of
                Inl e \<Rightarrow> Inl e
              | Inr local_matrix \<Rightarrow> set_pose tr b index pose_name (Some local_matrix)))"

text \<open>\<^verbatim>\<open>list.pop(index)\<close>\<close>

definition list_pop :: "'a list \<Rightarrow> int \<Rightarrow> error + 'a list" where
  "list_pop xs i =
     (if - int (length xs) \<le> i \<and> i < int (length xs)
      then (let k = nat (if i < 0 then int (length xs) + i else i)
            in Inr (take k xs @ drop (Suc k) xs))
      else Inl IndexError)"

text \<open>
  \<^verbatim>\<open>UEPoseBlenderNode.delete_pose\<close>: the elements \<open>0 .. len(poses) - 1\<close> are removed,
  the popped list is written back from index 0.
\<close>

definition blender_delete_pose ::
  "(string \<times> matrix) list \<Rightarrow> blender_node \<Rightarrow> int \<Rightarrow> string \<Rightarrow> error option \<times> blender_node" where
  "blender_delete_pose tr b index pose_name =
     (if index < 0 \<and> pose_name = [] then (Some (InvalidPoseIndex ''Unable to delete pose''), b)
      else
        (let poses = get_poses b;
             b1 = b\<lparr>blender_poses :=
                     fold removeMultiInstance (rev (map int [0 ..< length poses])) (blender_poses b)\<rparr>
         in case list_pop poses index of
              Inl e \<Rightarrow> (Some e, b1)
            | Inr poses' \<Rightarrow>
                for_loop
                  (\<lambda>(pose_index, matrix) b'.
                     case set_pose tr b' pose_index [] (Some matrix) of
                       Inl e \<Rightarrow> (Some e, b')
                     | Inr b'' \<Rightarrow> (None, b''))
                  (zip (map int [0 ..< length poses']) poses') b1))"

text \<open>\<^verbatim>\<open>UEPoseBlenderNode.go_to_pose\<close> writes the driven transform.\<close>

definition blender_go_to_pose ::
  "(string \<times> matrix) list \<Rightarrow> blender_node \<Rightarrow> int \<Rightarrow> error + (string \<times> matrix) list" where
  "blender_go_to_pose tr b index =
     (case drivenTransform b of
        None \<Rightarrow> Inl MayaError
      | Some t \<Rightarrow> xform_set tr t (get_pose b index))"

text \<open>
  The \<^verbatim>\<open>edit\<close> property: its getter and its setter.  Entering edit mode reads the
  local matrix of the driven transform, removes the connections of \<^verbatim>\<open>outMatrix\<close>
  and writes the same matrix back, so the transforms keep their matrices.
\<close>

definition blender_edit :: "blender_node \<Rightarrow> bool" where
  "blender_edit b =
     (case drivenTransform b of
        None \<Rightarrow> True
      | Some t \<Rightarrow> (if outMatrix_connected b then False else True))"

definition set_blender_edit ::
  "(string \<times> matrix) list \<Rightarrow> blender_node \<Rightarrow> bool \<Rightarrow> error + blender_node" where
  "set_blender_edit tr b v =
     (case drivenTransform b of
        None \<Rightarrow> Inr b
      | Some transform \<Rightarrow>
          (if v then
             (case xform_query tr transform of
                Inl e \<Rightarrow> Inl e
              | Inr current_matrix \<Rightarrow> Inr (b\<lparr>outMatrix_connected := False\<rparr>))
           else
             (if map_of tr transform = None
              then Inl (InvalidNodeType ''Invalid node type. Expected transform'')
              else Inr (b\<lparr>outMatrix_connected := True\<rparr>))))"


section \<open>The solver (\<^verbatim>\<open>RBFNode\<close> in \<^verbatim>\<open>v2/model/api.py\<close>)\<close>

subsection \<open>Drivers, controllers and poses: the queries\<close>

definition num_drivers :: "solver_node \<Rightarrow> nat" where
  "num_drivers s = length (inputs s)"

definition num_controllers :: "solver_node \<Rightarrow> nat" where
  "num_controllers s = length (inputsControllers s)"

definition num_poses :: "solver_node \<Rightarrow> nat" where
  "num_poses s = length (targets s)"

definition connections_of :: "string \<Rightarrow> string option multi \<Rightarrow> error + string list" where
  "connections_of msg m =
     mapM (\<lambda>(i, c). case c of None \<Rightarrow> Inl (RuntimeError msg) | Some node \<Rightarrow> Inr node) m"

definition drivers :: "solver_node \<Rightarrow> error + string list" where
  "drivers s = connections_of ''Unable to get driver at index'' (inputs s)"

definition controllers :: "solver_node \<Rightarrow> error + string list" where
  "controllers s = connections_of ''Unable to get controller at index'' (inputsControllers s)"

definition has_driver :: "solver_node \<Rightarrow> string \<Rightarrow> error + bool" where
  "has_driver s transform_node =
     (case drivers s of Inl e \<Rightarrow> Inl e | Inr ds \<Rightarrow> Inr (transform_node \<in> set ds))"


fun pose_index_loop :: "target multi \<Rightarrow> string \<Rightarrow> int" where
  "pose_index_loop [] pose_name = - 1"
| "pose_index_loop ((i, t) # r) pose_name =
     (if pose_name = targetName t then i else pose_index_loop r pose_name)"

definition pose_index :: "solver_node \<Rightarrow> string \<Rightarrow> int" where
  "pose_index s pose_name = pose_index_loop (targets s) pose_name"

text \<open>
  The dictionary returned by \<^verbatim>\<open>pose\<close>: the keys \<^verbatim>\<open>drivers\<close>,
  \<^verbatim>\<open>controllers\<close>, \<^verbatim>\<open>driven\<close> (driven transform of each pose blender, which may be
  \<^verbatim>\<open>None\<close>, to its recorded matrix) and \<^verbatim>\<open>target_enable\<close>.
\<close>

record pose_data =
  p_drivers :: "matrix list"
  p_controllers :: "matrix list"
  p_driven :: "(string option \<times> matrix) list"
  p_target_enable :: bool

definition pose :: "solver_node \<Rightarrow> string \<Rightarrow> error + pose_data" where
  "pose s pose_name =
     (let pose_index = pose_index s pose_name
      in if pose_index = - 1 then Inl (InvalidPose (''Pose not found: '' @ quoted pose_name))
         else
           (let t = element_at new_target (targets s) pose_index;
                driver_indices = multiIndices (targetValues t)
            in if driver_indices = [] then Inl (InvalidPose ''Unable to get Driver indices'')
               else if length driver_indices \<noteq> num_drivers s
               then Inl (InvalidPose ''Invalid Driver Indices'')
               else if length (multiIndices (targetControllers t)) \<noteq> num_controllers s
               then Inl (RuntimeError ''Invalid Controller Indices'')
               else
                 (case (case poseBlenders s of
                          None \<Rightarrow> Inr []
                        | Some [] \<Rightarrow> Inl TypeError
                        | Some bs \<Rightarrow>
                            Inr (fold (\<lambda>(n, b) d. dict_set (drivenTransform b) (get_pose b pose_index) d)
                                      bs [])) of
                    Inl e \<Rightarrow> Inl e
                  | Inr pose_blender_data \<Rightarrow>
                      Inr \<lparr>p_drivers = map snd (targetValues t),
                           p_controllers = map snd (targetControllers t),
                           p_driven = pose_blender_data,
                           p_target_enable = targetEnable t\<rparr>)))"

fun poses_loop ::
  "solver_node \<Rightarrow> target multi \<Rightarrow> (string \<times> pose_data) list \<Rightarrow> error + (string \<times> pose_data) list" where
  "poses_loop s [] acc = Inr acc"
| "poses_loop s ((i, t) # r) acc =
     (if targetName t \<noteq> [] then
        (case pose s (targetName t) of
           Inl e \<Rightarrow> Inl e
         | Inr pd \<Rightarrow> poses_loop s r (dict_set (targetName t) pd acc))
      else poses_loop s r acc)"

definition poses :: "solver_node \<Rightarrow> error + (string \<times> pose_data) list" where
  "poses s = poses_loop s (targets s) []"

definition has_pose :: "solver_node \<Rightarrow> string \<Rightarrow> error + bool" where
  "has_pose s pose_name =
     (case poses s of Inl e \<Rightarrow> Inl e | Inr ps \<Rightarrow> Inr (pose_name \<in> set (map fst ps)))"

subsection \<open>Adding and deleting poses\<close>

text \<open>Running a method of each connected pose blender, in order.\<close>

fun blenders_loop ::
  "(blender_node \<Rightarrow> error option \<times> blender_node) \<Rightarrow> (string \<times> blender_node) list
     \<Rightarrow> error option \<times> (string \<times> blender_node) list" where
  "blenders_loop f [] = (None, [])"
| "blenders_loop f ((n, b) # r) =
     (case f b of
        (Some e, b') \<Rightarrow> (Some e, (n, b') # r)
      | (None, b') \<Rightarrow> (case blenders_loop f r of (e, r') \<Rightarrow> (e, (n, b') # r')))"

definition outcome :: "'st \<Rightarrow> error + 'st \<Rightarrow> error option \<times> 'st" where
  "outcome st r = (case r of Inl e \<Rightarrow> (Some e, st) | Inr st' \<Rightarrow> (None, st'))"

text \<open>
  \<^verbatim>\<open>for pose_blender_node_name in cmds.listConnections(solver.poseBlenders)\<close>, guarded
  by the existence of the attribute: iterating \<^verbatim>\<open>None\<close> raises.
\<close>

definition on_pose_blenders ::
  "(blender_node \<Rightarrow> error option \<times> blender_node) \<Rightarrow> solver_node \<Rightarrow> error option \<times> solver_node" where
  "on_pose_blenders f s =
     (case poseBlenders s of
        None \<Rightarrow> (None, s)
      | Some [] \<Rightarrow> (Some TypeError, s)
      | Some bs \<Rightarrow> (case blenders_loop f bs of (e, bs') \<Rightarrow> (e, s\<lparr>poseBlenders := Some bs'\<rparr>)))"

definition set_target_value :: "int \<Rightarrow> int \<Rightarrow> matrix \<Rightarrow> solver_node \<Rightarrow> solver_node" where
  "set_target_value idx driver_index m s =
     (let t = element_at new_target (targets s) idx
      in s\<lparr>targets :=
             setElement idx
               (t\<lparr>targetValues := setElement driver_index m (targetValues t)\<rparr>) (targets s)\<rparr>)"

definition set_target_controller :: "int \<Rightarrow> int \<Rightarrow> matrix \<Rightarrow> solver_node \<Rightarrow> solver_node" where
  "set_target_controller idx controller_index m s =
     (let t = element_at new_target (targets s) idx
      in s\<lparr>targets :=
             setElement idx
               (t\<lparr>targetControllers := setElement controller_index m (targetControllers t)\<rparr>)
               (targets s)\<rparr>)"

definition set_target_name :: "int \<Rightarrow> string \<Rightarrow> solver_node \<Rightarrow> solver_node" where
  "set_target_name idx n s =
     (let t = element_at new_target (targets s) idx
      in s\<lparr>targets := setElement idx (t\<lparr>targetName := n\<rparr>) (targets s)\<rparr>)"

definition set_target_enable :: "int \<Rightarrow> bool \<Rightarrow> solver_node \<Rightarrow> solver_node" where
  "set_target_enable idx v s =
     (let t = element_at new_target (targets s) idx
      in s\<lparr>targets := setElement idx (t\<lparr>targetEnable := v\<rparr>) (targets s)\<rparr>)"

definition enumerate_int :: "'a list \<Rightarrow> (int \<times> 'a) list" where
  "enumerate_int xs = zip (map int [0 ..< length xs]) xs"

text \<open>
  \<^verbatim>\<open>RBFNode.add_pose\<close>.  The arguments \<^verbatim>\<open>drivers\<close>, \<^verbatim>\<open>matrices\<close>,
  \<^verbatim>\<open>controller_matrices\<close> and \<^verbatim>\<open>driven_matrices\<close> default to \<^verbatim>\<open>None\<close>; the
  function type, distance method and scale factor are accepted and not used.  The result
  is the exception raised, if any, and the solver node as the call leaves it.
\<close>

definition add_pose ::
  "(string \<times> matrix) list \<Rightarrow> solver_node \<Rightarrow> string \<Rightarrow> string list option \<Rightarrow> matrix list option
     \<Rightarrow> matrix list option \<Rightarrow> (string option \<times> matrix) list option \<Rightarrow> bool
     \<Rightarrow> error option \<times> solver_node" where
  "add_pose tr s pose_name drivers_arg matrices controller_matrices driven_matrices target_enable =
     (case (case (drivers_arg, matrices) of
              (Some (d # ds), None) \<Rightarrow>
                (case mapM (xform_query tr) (d # ds) of Inl e \<Rightarrow> Inl e | Inr ms \<Rightarrow> Inr (Some ms))
            | _ \<Rightarrow> Inr matrices) of
        Inl e \<Rightarrow> (Some e, s)
      | Inr matrices \<Rightarrow>
          if num_drivers s = 0 then (Some (InvalidPose ''You must add a driver first.''), s)
          else
            (case has_pose s pose_name of
               Inl e \<Rightarrow> (Some e, s)
             | Inr True \<Rightarrow> (Some (InvalidPose (''Already a pose called: '' @ quoted pose_name)), s)
             | Inr False \<Rightarrow>
                 (case matrices of
                    None \<Rightarrow> (Some TypeError, s)
                  | Some matrices \<Rightarrow>
                      if length matrices \<noteq> num_drivers s
                      then (Some (InvalidPose
                              ''Invalid number of matrices. Must match number of drivers.''), s)
                      else if (case controller_matrices of
                                 None \<Rightarrow> False
                               | Some cms \<Rightarrow> cms \<noteq> [] \<and> length cms \<noteq> num_controllers s)
                      then (Some (InvalidPose
                              ''Invalid number of controller matrices. Must match number of controllers.''), s)
                      else if num_controllers s \<noteq> 0
                              \<and> (controller_matrices = None \<or> controller_matrices = Some [])
                      then (Some (InvalidPose
                              ''Invalid number of controller matrices. Must match number of controllers.''), s)
                      else
                        (let pose_index = int (num_poses s);
                             s1 = fold (\<lambda>(driver_index, matrix). set_target_value pose_index driver_index matrix)
                                       (enumerate_int matrices) s;
                             s2 = (case controller_matrices of
                                     None \<Rightarrow> s1
                                   | Some cms \<Rightarrow>
                                       fold (\<lambda>(controller_index, matrix).
                                               set_target_controller pose_index controller_index matrix)
                                            (enumerate_int cms) s1)
                         in case on_pose_blenders
                                   (\<lambda>b. case (case driven_matrices of
                                                 None \<Rightarrow> None
                                               | Some dm \<Rightarrow> map_of dm (drivenTransform b)) of
                                           Some (x # m) \<Rightarrow>
                                             outcome b (set_pose tr b pose_index pose_name (Some (x # m)))
                                         | _ \<Rightarrow>
                                             outcome b
                                               (blender_add_pose_from_current tr b pose_name pose_index))
                                   s2 of
                              (Some e, s3) \<Rightarrow> (Some e, s3)
                            | (None, s3) \<Rightarrow>
                                (None, set_target_enable pose_index target_enable
                                         (set_target_name pose_index pose_name s3))))))"

text \<open>
  \<^verbatim>\<open>RBFNode.add_pose_from_current\<close> with \<^verbatim>\<open>update=False\<close>.
\<close>

definition add_pose_from_current ::
  "(string \<times> matrix) list \<Rightarrow> solver_node \<Rightarrow> string \<Rightarrow> error option \<times> solver_node" where
  "add_pose_from_current tr s pose_name =
     (case drivers s of
        Inl e \<Rightarrow> (Some e, s)
      | Inr ds \<Rightarrow>
          (case mapM (xform_query tr) ds of
             Inl e \<Rightarrow> (Some e, s)
           | Inr matrices \<Rightarrow>
               (case (if num_controllers s \<noteq> 0
                      then (case controllers s of
                              Inl e \<Rightarrow> Inl e
                            | Inr cs \<Rightarrow>
                                (case mapM (xform_query tr) cs of
                                   Inl e \<Rightarrow> Inl e
                                 | Inr cms \<Rightarrow> Inr (Some cms)))
                      else Inr None) of
                  Inl e \<Rightarrow> (Some e, s)
                | Inr controller_matrices \<Rightarrow>
                    add_pose tr s pose_name (Some ds) (Some matrices) controller_matrices None True)))"

text \<open>\<^verbatim>\<open>RBFNode.delete_pose\<close>\<close>

definition delete_pose ::
  "(string \<times> matrix) list \<Rightarrow> solver_node \<Rightarrow> string \<Rightarrow> error option \<times> solver_node" where
  "delete_pose tr s pose_name =
     (case has_pose s pose_name of
        Inl e \<Rightarrow> (Some e, s)
      | Inr False \<Rightarrow> (Some (InvalidPose (''Pose '' @ pose_name @ '' does not exist.'')), s)
      | Inr True \<Rightarrow>
          (case poses s of
             Inl e \<Rightarrow> (Some e, s)
           | Inr ps \<Rightarrow>
               (let pose_index = pose_index s pose_name;
                    s1 = s\<lparr>targets :=
                            fold removeMultiInstance (rev (map int [0 ..< length ps])) (targets s)\<rparr>;
                    ps' = filter (\<lambda>(n, pd). n \<noteq> pose_name) ps
                in case on_pose_blenders (\<lambda>b. blender_delete_pose tr b pose_index []) s1 of
                     (Some e, s2) \<Rightarrow> (Some e, s2)
                   | (None, s2) \<Rightarrow>
                       for_loop
                         (\<lambda>(pose_name, pose_data) st.
                            add_pose tr st pose_name None (Some (p_drivers pose_data))
                              (Some (p_controllers pose_data)) (Some (p_driven pose_data))
                              (p_target_enable pose_data))
                         ps' s2)))"

subsection \<open>Muting\<close>

text \<open>
  Reading and writing \<^verbatim>\<open>targets[index].targetEnable\<close>.  A logical index is not
  negative: a plug name with a negative index denotes no plug and the command fails.
\<close>

definition getAttr_targetEnable :: "solver_node \<Rightarrow> int \<Rightarrow> error + bool" where
  "getAttr_targetEnable s index =
     (if index < 0 then Inl MayaError
      else Inr (targetEnable (element_at new_target (targets s) index)))"

definition setAttr_targetEnable :: "solver_node \<Rightarrow> int \<Rightarrow> bool \<Rightarrow> error option \<times> solver_node" where
  "setAttr_targetEnable s index v =
     (if index < 0 then (Some MayaError, s) else (None, set_target_enable index v s))"

definition is_pose_muted :: "solver_node \<Rightarrow> string \<Rightarrow> int \<Rightarrow> error + bool" where
  "is_pose_muted s pose_name pose_index_arg =
     (case (if pose_index_arg < 0 \<and> pose_name \<noteq> [] then Inr (pose_index s pose_name)
            else if pose_name = [] \<and> pose_index_arg < 0
            then Inl (InvalidPoseIndex
                   ''Unable to query the mute status, no pose name or index specified'')
            else Inr pose_index_arg) of
        Inl e \<Rightarrow> Inl e
      | Inr idx \<Rightarrow>
          (case getAttr_targetEnable s idx of
             Inl e \<Rightarrow> Inl e
           | Inr enabled \<Rightarrow> Inr (\<not> enabled)))"

text \<open>
  \<^verbatim>\<open>RBFNode.mute_pose\<close>; \<^verbatim>\<open>mute=None\<close> toggles.  The value returned is
  \<^verbatim>\<open>not mute\<close>.
\<close>

definition mute_pose ::
  "solver_node \<Rightarrow> string \<Rightarrow> int \<Rightarrow> bool option \<Rightarrow> (error + bool) \<times> solver_node" where
  "mute_pose s pose_name pose_index_arg mute =
     (case (if pose_index_arg < 0 \<and> pose_name \<noteq> [] then Inr (pose_index s pose_name)
            else if pose_name = [] \<and> pose_index_arg < 0
            then Inl (InvalidPoseIndex
                   ''Unable to query the mute status, no pose name or index specified'')
            else Inr pose_index_arg) of
        Inl e \<Rightarrow> (Inl e, s)
      | Inr idx \<Rightarrow>
          (case (case mute of
                   None \<Rightarrow>
                     (case is_pose_muted s [] idx of
                        Inl e \<Rightarrow> Inl e
                      | Inr muted \<Rightarrow> Inr (\<not> muted))
                 | Some m \<Rightarrow> Inr m) of
             Inl e \<Rightarrow> (Inl e, s)
           | Inr mute \<Rightarrow>
               (case setAttr_targetEnable s idx (\<not> mute) of
                  (Some e, s') \<Rightarrow> (Inl e, s')
                | (None, s') \<Rightarrow> (Inr (\<not> mute), s'))))"


subsection \<open>Adding drivers\<close>

definition solver_blenders :: "solver_node \<Rightarrow> (string \<times> blender_node) list" where
  "solver_blenders s = (case poseBlenders s of None \<Rightarrow> [] | Some bs \<Rightarrow> bs)"

definition objExists :: "scene \<Rightarrow> string \<Rightarrow> bool" where
  "objExists sc node =
     (node \<in> set (map fst (solvers sc)) \<or> node \<in> set (map fst (transforms sc))
      \<or> node \<in> set (concat (map (\<lambda>(n, s). map fst (solver_blenders s)) (solvers sc))))"

definition is_transform :: "scene \<Rightarrow> string \<Rightarrow> bool" where
  "is_transform sc node = (node \<in> set (map fst (transforms sc)))"

text \<open>
  \<^verbatim>\<open>RBFNode.add_driver\<close>, with \<^verbatim>\<open>transform_nodes\<close> given as a list (a single name
  is wrapped into one, \<^verbatim>\<open>None\<close> stands for the selected transforms).
  \<^verbatim>\<open>connectAttr\<close> fails on a destination that is connected already.
\<close>

definition add_driver :: "scene \<Rightarrow> solver_node \<Rightarrow> string list \<Rightarrow> error option \<times> solver_node" where
  "add_driver sc s transform_nodes =
     (if num_poses s > 1
      then (Some (RuntimeError ''Unable to add driver after poses have been added''), s)
      else
        for_loop
          (\<lambda>transform_node st.
             if \<not> objExists sc transform_node
             then (Some (RuntimeError (''Node not found: '' @ quoted transform_node)), st)
             else if \<not> is_transform sc transform_node
             then (Some (RuntimeError (''Invalid transform node: '' @ quoted transform_node)), st)
             else
               (case has_driver st transform_node of
                  Inl e \<Rightarrow> (Some e, st)
                | Inr True \<Rightarrow>
                    (Some (RuntimeError (''Already has driver '' @ quoted transform_node)), st)
                | Inr False \<Rightarrow>
                    (let index = int (num_drivers st)
                     in case map_of (inputs st) index of
                          Some (Some other) \<Rightarrow> (Some MayaError, st)
                        | _ \<Rightarrow>
                            (let st1 = st\<lparr>inputs := setElement index (Some transform_node) (inputs st)\<rparr>
                             in case xform_query (transforms sc) transform_node of
                                  Inl e \<Rightarrow> (Some e, st1)
                                | Inr rest_matrix \<Rightarrow>
                                    (None, st1\<lparr>inputsRest :=
                                                  setElement index rest_matrix (inputsRest st1)\<rparr>)))))
          transform_nodes s)"


text \<open>
  \<^verbatim>\<open>UERBFAPI.add_drivers\<close> (\<^verbatim>\<open>v2/main.py\<close>), on the solver it is given; the
  notification of the view and of the extensions is left out.
\<close>

definition add_drivers :: "scene \<Rightarrow> solver_node \<Rightarrow> string list \<Rightarrow> error option \<times> solver_node" where
  "add_drivers sc solver drivers_arg =
     (if num_poses solver > 1
      then (Some (InvalidPoseIndex
              ''Too many poses have been created, unable to add a new driver.''), solver)
      else
        (case has_pose solver ''default'' of
           Inl e \<Rightarrow> (Some e, solver)
         | Inr has_default \<Rightarrow>
             (case (if has_default then delete_pose (transforms sc) solver ''default''
                    else (None, solver)) of
                (Some e, s1) \<Rightarrow> (Some e, s1)
              | (None, s1) \<Rightarrow>
                  (case add_driver sc s1 drivers_arg of
                     (Some e, s2) \<Rightarrow> (Some e, s2)
                   | (None, s2) \<Rightarrow> add_pose_from_current (transforms sc) s2 ''default''))))"

subsection \<open>Going to a pose, edit mode\<close>

text \<open>
  \<^verbatim>\<open>RBFNode.go_to_pose\<close> writes transforms only.  \<^verbatim>\<open>matrices[driver_index]\<close>
  raises \<open>IndexError\<close> out of range.
\<close>

definition set_transforms ::
  "(string \<times> matrix) list \<Rightarrow> string list \<Rightarrow> matrix list \<Rightarrow> error option \<times> (string \<times> matrix) list" where
  "set_transforms tr nodes matrices =
     for_loop
       (\<lambda>(i, node) tr'.
          if i < length matrices then outcome tr' (xform_set tr' node (matrices ! i))
          else (Some IndexError, tr'))
       (enumerate 0 nodes) tr"

definition go_to_pose ::
  "(string \<times> matrix) list \<Rightarrow> solver_node \<Rightarrow> string \<Rightarrow> error option \<times> (string \<times> matrix) list" where
  "go_to_pose tr s pose_name =
     (case pose s pose_name of
        Inl e \<Rightarrow> (Some e, tr)
      | Inr pd \<Rightarrow>
          (let pose_index = pose_index s pose_name
           in case (if num_controllers s = 0
                    then (case drivers s of
                            Inl e \<Rightarrow> (Some e, tr)
                          | Inr ds \<Rightarrow> set_transforms tr ds (p_drivers pd))
                    else (case controllers s of
                            Inl e \<Rightarrow> (Some e, tr)
                          | Inr cs \<Rightarrow> set_transforms tr cs (p_controllers pd))) of
                (Some e, tr1) \<Rightarrow> (Some e, tr1)
              | (None, tr1) \<Rightarrow>
                  (case poseBlenders s of
                     None \<Rightarrow> (None, tr1)
                   | Some [] \<Rightarrow> (Some TypeError, tr1)
                   | Some bs \<Rightarrow>
                       for_loop (\<lambda>(n, b) tr'. outcome tr' (blender_go_to_pose tr' b pose_index))
                                bs tr1)))"

definition get_solver_edit_status :: "solver_node \<Rightarrow> error + bool" where
  "get_solver_edit_status s =
     (case poseBlenders s of
        None \<Rightarrow> Inr False
      | Some [] \<Rightarrow> Inl TypeError
      | Some bs \<Rightarrow> Inr (list_ex (\<lambda>(n, b). blender_edit b) bs))"

definition find_all :: "scene \<Rightarrow> string list" where
  "find_all sc = map fst (solvers sc)"

text \<open>
  \<^verbatim>\<open>RBFNode.edit_solver\<close>, on the scene: \<open>self\<close> is the name of the solver node.
  Two wrappers are equal when their node names are.
\<close>

definition force_base_pose :: "string \<Rightarrow> string \<Rightarrow> scene \<Rightarrow> error option \<times> scene" where
  "force_base_pose self solver sc =
     (if solver \<noteq> self then
        (case map_of (solvers sc) solver of
           None \<Rightarrow> (Some MayaError, sc)
         | Some node \<Rightarrow>
             (case has_pose node ''default'' of
                Inl err \<Rightarrow> (Some err, sc)
              | Inr False \<Rightarrow> (None, sc)
              | Inr True \<Rightarrow>
                  (case go_to_pose (transforms sc) node ''default'' of
                     (e, tr') \<Rightarrow> (e, sc\<lparr>transforms := tr'\<rparr>))))
      else (None, sc))"

definition edit_solver :: "scene \<Rightarrow> string \<Rightarrow> bool \<Rightarrow> error option \<times> scene" where
  "edit_solver sc self edit =
     (case map_of (solvers sc) self of
        None \<Rightarrow> (Some MayaError, sc)
      | Some s \<Rightarrow>
          (case on_pose_blenders (\<lambda>b. outcome b (set_blender_edit (transforms sc) b edit)) s of
             (e, s') \<Rightarrow>
               (let sc1 = sc\<lparr>solvers := dict_set self s' (solvers sc)\<rparr>
                in case e of
                     Some err \<Rightarrow> (Some err, sc1)
                   | None \<Rightarrow> for_loop (force_base_pose self) (find_all sc1) sc1)))"

text \<open>
  What the specification calls forcing a solver to its default pose: the solvers of
  the scene, other than \<open>self\<close>, that have a pose named \<^verbatim>\<open>default\<close>, and
  \<^verbatim>\<open>go_to_pose('default')\<close> on one of them.
\<close>

definition has_default :: "(string \<times> solver_node) list \<Rightarrow> string \<Rightarrow> bool" where
  "has_default nodes solver =
     (case map_of nodes solver of
        None \<Rightarrow> False
      | Some node \<Rightarrow> has_pose node ''default'' = Inr True)"

definition go_to_default ::
  "(string \<times> solver_node) list \<Rightarrow> string \<Rightarrow> (string \<times> matrix) list
     \<Rightarrow> error option \<times> (string \<times> matrix) list" where
  "go_to_default nodes solver tr =
     (case map_of nodes solver of
        None \<Rightarrow> (Some MayaError, tr)
      | Some node \<Rightarrow> go_to_pose tr node ''default'')"

definition edit_status :: "scene \<Rightarrow> string \<Rightarrow> (error + bool) option" where
  "edit_status sc solver = map_option get_solver_edit_status (map_of (solvers sc) solver)"

section \<open>Serialization (\<^verbatim>\<open>RBFNode.data\<close>, \<^verbatim>\<open>RBFNode.create_from_data\<close>)\<close>


text \<open>
  \<^verbatim>\<open>driven_nodes(UEPoseBlenderNode.node_type)\<close>: the driven transform of each
  connected pose blender (here \<^verbatim>\<open>listConnections(...) or []\<close> guards the loop).
\<close>

definition driven_nodes :: "solver_node \<Rightarrow> string option list" where
  "driven_nodes s = map (\<lambda>(n, b). drivenTransform b) (solver_blenders s)"




text \<open>
  \<^verbatim>\<open>UEPoseBlenderNode.find_by_transform\<close>: is a pose blender connected to the
  transform, in the solver at hand or in another solver of the scene.
\<close>

definition find_by_transform :: "scene \<Rightarrow> string \<Rightarrow> solver_node \<Rightarrow> string \<Rightarrow> bool" where
  "find_by_transform sc self s node =
     (Some node \<in> set (driven_nodes s) \<or>
      list_ex (\<lambda>(n, s'). n \<noteq> self \<and> Some node \<in> set (driven_nodes s')) (solvers sc))"

text \<open>
  \<^verbatim>\<open>RBFNode.add_driven_transforms\<close> with a list of nodes; a node that is bound already
  is logged and skipped.  \<^verbatim>\<open>UEPoseBlenderNode.create\<close> records the local matrix of the
  transform as the base pose, the input matrix and the pose at index 0.
\<close>

definition add_driven_transforms ::
  "scene \<Rightarrow> string \<Rightarrow> solver_node \<Rightarrow> string option list \<Rightarrow> bool \<Rightarrow> error option \<times> solver_node" where
  "add_driven_transforms sc self s driven_nodes_arg edit =
     for_loop
       (\<lambda>node st.
          case node of
            None \<Rightarrow> (Some MayaError, st)
          | Some node \<Rightarrow>
              if \<not> objExists sc node then (Some MayaError, st)
              else if find_by_transform sc self st node then (None, st)
              else
                (case xform_query (transforms sc) node of
                   Inl e \<Rightarrow> (Some e, st)
                 | Inr m \<Rightarrow>
                     (let b = \<lparr>drivenTransform = Some node, basePose = m, inMatrix = m,
                               blender_poses = [(0, m)], outMatrix_connected = False\<rparr>;
                          name = node @ ''_UEPoseBlenderNode''
                      in case set_blender_edit (transforms sc) b edit of
                           Inl e \<Rightarrow>
                             (Some e, st\<lparr>poseBlenders := Some (solver_blenders st @ [(name, b)])\<rparr>)
                         | Inr b' \<Rightarrow>
                             (None, st\<lparr>poseBlenders := Some (solver_blenders st @ [(name, b')])\<rparr>))))
       driven_nodes_arg s"







section \<open>The kinds of errors of the specification\<close>

text \<open>
  The specification names kinds of errors, the code raises exceptions.  Each kind is
  the set of exceptions that the code raises for it.
\<close>

definition DriverLimitExceeded :: "error \<Rightarrow> bool" where
  "DriverLimitExceeded e =
     (e = RuntimeError ''Unable to add driver after poses have been added'' \<or>
      e = InvalidPoseIndex ''Too many poses have been created, unable to add a new driver.'')"

definition ArityMismatch :: "error \<Rightarrow> bool" where
  "ArityMismatch e =
     (e = InvalidPose ''Invalid number of matrices. Must match number of drivers.'')"

definition PoseNotFound :: "string \<Rightarrow> error \<Rightarrow> bool" where
  "PoseNotFound pose_name e = (e = InvalidPose (''Pose '' @ pose_name @ '' does not exist.''))"

section \<open>Example scenes\<close>

text \<open>
  The solver of the specification's scenario A, on the left arm: one driver, a driven
  transform, the poses \<^verbatim>\<open>default\<close> and \<^verbatim>\<open>raised\<close>; and a solver on the right arm
  with one pose, whose driven transform is being edited.
\<close>

definition quarter_turn_z :: matrix where
  "quarter_turn_z = [0, 1, 0, 0, - 1, 0, 0, 0, 0, 0, 1, 0, 0, 0, 0, 1]"

definition example_blender :: blender_node where
  "example_blender =
     \<lparr>drivenTransform = Some ''J_l_elbow'', basePose = identity_matrix,
      inMatrix = identity_matrix,
      blender_poses = [(0, identity_matrix), (1, quarter_turn_z)],
      outMatrix_connected = True\<rparr>"

definition example_solver :: solver_node where
  "example_solver =
     \<lparr>inputs = [(0, Some ''J_l_shoulder'')],
      inputsRest = [(0, identity_matrix)],
      inputsControllers = [],
      targets =
        [(0, \<lparr>targetName = ''default'', targetValues = [(0, identity_matrix)],
               targetControllers = [], targetEnable = True\<rparr>),
         (1, \<lparr>targetName = ''raised'', targetValues = [(0, quarter_turn_z)],
               targetControllers = [], targetEnable = True\<rparr>)],
      poseBlenders = Some [(''J_l_elbow_UEPoseBlenderNode'', example_blender)],
      mode = 0, radius = 45, automaticRadius = False, weightThreshold = 0,
      distanceMethod = 0, normalizeMethod = 0, functionType = 0, twistAxis = 0,
      inputMode = 0\<rparr>"

definition other_blender :: blender_node where
  "other_blender =
     \<lparr>drivenTransform = Some ''J_r_elbow'', basePose = identity_matrix,
      inMatrix = identity_matrix,
      blender_poses = [(0, identity_matrix)],
      outMatrix_connected = False\<rparr>"

definition other_solver :: solver_node where
  "other_solver =
     \<lparr>inputs = [(0, Some ''J_r_shoulder'')],
      inputsRest = [(0, identity_matrix)],
      inputsControllers = [],
      targets =
        [(0, \<lparr>targetName = ''default'', targetValues = [(0, identity_matrix)],
               targetControllers = [], targetEnable = True\<rparr>)],
      poseBlenders = Some [(''J_r_elbow_UEPoseBlenderNode'', other_blender)],
      mode = 0, radius = 45, automaticRadius = False, weightThreshold = 0,
      distanceMethod = 0, normalizeMethod = 0, functionType = 0, twistAxis = 0,
      inputMode = 0\<rparr>"

definition example_scene :: scene where
  "example_scene =
     \<lparr>solvers = [(''arm_l_UERBFSolver'', example_solver), (''arm_r_UERBFSolver'', other_solver)],
      transforms = [(''J_l_shoulder'', identity_matrix), (''J_l_elbow'', identity_matrix),
                    (''J_r_shoulder'', quarter_turn_z), (''J_r_elbow'', quarter_turn_z)]\<rparr>"

text \<open>
  The solver on the right arm after \<^verbatim>\<open>add_driver\<close> of a second driver: its pose
  \<^verbatim>\<open>default\<close> still holds one driver matrix.
\<close>

definition widened_solver :: solver_node where
  "widened_solver =
     other_solver\<lparr>inputs := [(0, Some ''J_r_shoulder''), (1, Some ''J_l_shoulder'')],
                  inputsRest := [(0, identity_matrix), (1, identity_matrix)]\<rparr>"

text \<open>
  The scene with one more transform, and the solver on the left arm after
  \<^verbatim>\<open>add_driven_transforms\<close> of that transform: the new pose blender records the pose at
  index 0 only.
\<close>

definition wrist_scene :: scene where
  "wrist_scene =
     example_scene\<lparr>transforms := transforms example_scene @ [(''J_l_wrist'', identity_matrix)]\<rparr>"

definition wrist_blender :: blender_node where
  "wrist_blender =
     \<lparr>drivenTransform = Some ''J_l_wrist'', basePose = identity_matrix,
      inMatrix = identity_matrix, blender_poses = [(0, identity_matrix)],
      outMatrix_connected = True\<rparr>"

definition rebound_solver :: solver_node where
  "rebound_solver =
     example_solver\<lparr>poseBlenders :=
       Some [(''J_l_elbow_UEPoseBlenderNode'', example_blender),
             (''J_l_wrist_UEPoseBlenderNode'', wrist_blender)]\<rparr>"




section \<open>The invariants of the data model\<close>

text \<open>
  A list written into a multi-valued attribute from index \<open>a\<close> on; an attribute whose
  indices are \<open>0, 1, 2, ...\<close> without a gap; a list without its element \<open>k\<close>.
\<close>

definition enum_from :: "nat \<Rightarrow> 'a list \<Rightarrow> (int \<times> 'a) list" where
  "enum_from a xs = zip (map int [a ..< a + length xs]) xs"

definition dense :: "'a multi \<Rightarrow> bool" where
  "dense m = (map fst m = map int [0 ..< length m])"

definition remove_at :: "nat \<Rightarrow> 'a list \<Rightarrow> 'a list" where
  "remove_at k xs = take k xs @ drop (Suc k) xs"

text \<open>
  The invariants I1, I2 and I4 of the specification, on the attributes of the solver
  node: there is a driver; the poses are at the indices \<open>0 .. n-1\<close>, named, with
  distinct names; each pose holds one matrix per driver and one per controller; and the
  \<^verbatim>\<open>poseBlenders\<close> attribute, when it exists, is connected.
\<close>

definition pose_invariants :: "solver_node \<Rightarrow> bool" where
  "pose_invariants s =
     (num_drivers s \<noteq> 0 \<and> dense (targets s) \<and>
      distinct (map (targetName \<circ> snd) (targets s)) \<and>
      (\<forall>(i, t) \<in> set (targets s).
         targetName t \<noteq> [] \<and>
         dense (targetValues t) \<and> length (targetValues t) = num_drivers s \<and>
         dense (targetControllers t) \<and> length (targetControllers t) = num_controllers s) \<and>
      poseBlenders s \<noteq> Some [])"

text \<open>
  The invariant I5: each pose blender records one matrix per pose of the solver, at the
  same indices; the pose blenders drive distinct transforms; a recorded matrix is a
  non-empty list of floats.
\<close>

definition bindings_in_lockstep :: "solver_node \<Rightarrow> bool" where
  "bindings_in_lockstep s =
     (distinct (map (drivenTransform \<circ> snd) (solver_blenders s)) \<and>
      (\<forall>(n, b) \<in> set (solver_blenders s).
         dense (blender_poses b) \<and> length (blender_poses b) = num_poses s \<and>
         (\<forall>(i, m) \<in> set (blender_poses b). m \<noteq> [])))"

text \<open>
  The \<^verbatim>\<open>driven\<close> entry of the pose at an index, and the dictionary that
  \<^verbatim>\<open>pose\<close> returns for the element of \<^verbatim>\<open>targets\<close> at that index.
\<close>

definition driven_data :: "solver_node \<Rightarrow> int \<Rightarrow> (string option \<times> matrix) list" where
  "driven_data s i =
     fold (\<lambda>(n, b) d. dict_set (drivenTransform b) (get_pose b i) d) (solver_blenders s) []"

definition pose_of :: "solver_node \<Rightarrow> int \<times> target \<Rightarrow> pose_data" where
  "pose_of s e =
     \<lparr>p_drivers = map snd (targetValues (snd e)),
      p_controllers = map snd (targetControllers (snd e)),
      p_driven = driven_data s (fst e),
      p_target_enable = targetEnable (snd e)\<rparr>"

text \<open>Applying a change to the element of \<^verbatim>\<open>targets\<close> at an index.\<close>

definition upd_target :: "int \<Rightarrow> (target \<Rightarrow> target) \<Rightarrow> solver_node \<Rightarrow> solver_node" where
  "upd_target j f st =
     st\<lparr>targets := setElement j (f (element_at new_target (targets st) j)) (targets st)\<rparr>"

text \<open>The part of the invariants that concerns one pose.\<close>

definition target_ok :: "solver_node \<Rightarrow> target \<Rightarrow> bool" where
  "target_ok s t =
     (targetName t \<noteq> [] \<and>
      dense (targetValues t) \<and> length (targetValues t) = num_drivers s \<and>
      dense (targetControllers t) \<and> length (targetControllers t) = num_controllers s)"

text \<open>A pose blender without the matrix it recorded for the pose at index \<open>k\<close>.\<close>

definition drop_recorded :: "nat \<Rightarrow> blender_node \<Rightarrow> blender_node" where
  "drop_recorded k b =
     b\<lparr>blender_poses := enumerate_int (remove_at k (map snd (blender_poses b)))\<rparr>"


text \<open>
  The \<^verbatim>\<open>poseBlenders\<close> attribute, when it exists, is connected, and each pose blender
  drives a transform of the scene.
\<close>

definition bound_to_transforms :: "(string \<times> matrix) list \<Rightarrow> (string \<times> blender_node) list option \<Rightarrow> bool" where
  "bound_to_transforms tr pb =
     (pb \<noteq> Some [] \<and>
      (\<forall>(n, b) \<in> set (case pb of None \<Rightarrow> [] | Some bs \<Rightarrow> bs).
         \<exists>t. drivenTransform b = Some t \<and> map_of tr t \<noteq> None))"

section \<open>Properties of the mirrored solver name\<close>

lemma swap_sides_new:
  "swap_sides (new_MirrorMapping d sd) =
     new_MirrorMapping d (if sd = RIGHT then LEFT else RIGHT)"
  by (simp add: swap_sides_def new_MirrorMapping_def set_source_side_def Let_def)

lemma new_syntax:
  "source_solver_syntax (new_MirrorMapping d sd) =
     solver_syntax (case sd of LEFT \<Rightarrow> left d | RIGHT \<Rightarrow> right d)"
  "target_solver_syntax (new_MirrorMapping d sd) =
     solver_syntax (case sd of LEFT \<Rightarrow> right d | RIGHT \<Rightarrow> left d)"
  by (auto simp: new_MirrorMapping_def set_source_side_def Let_def split: side.splits)

lemma mirror_groups_None:
  "None \<in> set gs \<Longrightarrow> fst (mirror_groups gs m acc) = Inl TypeError"
  by (induction gs arbitrary: m acc) (auto simp: Let_def split: option.splits)

lemma mirror_groups_Some:
  "None \<notin> set gs \<Longrightarrow>
   fst (mirror_groups gs (new_MirrorMapping d sd) acc) =
     Inr (acc @ concat (map (substitute_solver_side d \<circ> the) gs))"
proof (induction gs arbitrary: sd acc)
  case Nil
  then show ?case by simp
next
  case (Cons g gs)
  then obtain s where g: "g = Some s" by (cases g) auto
  from Cons.prems have rest: "None \<notin> set gs" by simp
  show ?case
    using Cons.IH[OF rest]
    by (cases sd)
       (auto simp: g swap_sides_new new_syntax substitute_solver_side_def Let_def)
qed

lemma re_match_no_prefix:
  "re_match metahuman_expression ''_l_UERBFSolver'' =
     Some [None, Some ''_l_'', Some ''UERBFSolver'']"
  by (simp add: re_match_def metahuman_expression_def alnum_def)

lemma re_match_arm_l:
  "re_match metahuman_expression ''arm_l_UERBFSolver'' =
     Some [Some ''arm'', Some ''_l_'', Some ''UERBFSolver'']"
  by (simp add: re_match_def metahuman_expression_def alnum_def)

lemma re_match_arm_r:
  "re_match metahuman_expression ''arm_r_UERBFSolver'' =
     Some [Some ''arm'', Some ''_r_'', Some ''UERBFSolver'']"
  by (simp add: re_match_def metahuman_expression_def alnum_def)

text \<open>
  C2 (mirror-name involution).  With the MetaHuman mapping, whichever side is its
  source side, the name derived for \<^verbatim>\<open>arm_l_UERBFSolver\<close> is
  \<^verbatim>\<open>arm_r_UERBFSolver\<close>, and deriving again, with the mapping object as the first
  call left it, from \<^verbatim>\<open>arm_r_UERBFSolver\<close> gives \<^verbatim>\<open>arm_l_UERBFSolver\<close> back.
\<close>

theorem mirror_name_involution:
  "(case get_mirrored_solver_name (new_MirrorMapping metahuman sd) ''arm_l_UERBFSolver'' of
      (r1, m1) \<Rightarrow>
        r1 = Inr ''arm_r_UERBFSolver'' \<and>
        fst (get_mirrored_solver_name m1 ''arm_r_UERBFSolver'') = Inr ''arm_l_UERBFSolver'')"
  by (cases sd)
     (simp_all add: get_mirrored_solver_name_def new_MirrorMapping_def set_source_side_def
        swap_sides_def metahuman_def re_match_arm_l re_match_arm_r)

text \<open>
  C10 (mirrored-name totality).  When the solver name matches the solver expression,
  the derived name is the concatenation of the captured groups with the side tokens
  exchanged, provided every group took part in the match; as soon as one group did not
  (it is \<open>None\<close>), the derivation raises \<open>TypeError\<close>, not
  \<open>InvalidMirrorMapping\<close>.
\<close>

theorem mirrored_name_totality:
  assumes "re_match (solver_expression d) name = Some groups"
  shows "fst (get_mirrored_solver_name (new_MirrorMapping d sd) name) =
     (if None \<in> set groups then Inl TypeError
      else Inr (concat (map (substitute_solver_side d \<circ> the) groups)))"
proof -
  have "mapping (new_MirrorMapping d sd) = d"
    by (simp add: new_MirrorMapping_def set_source_side_def Let_def)
  then have "get_mirrored_solver_name (new_MirrorMapping d sd) name =
     mirror_groups groups (new_MirrorMapping d sd) []"
    using assms by (simp add: get_mirrored_solver_name_def)
  then show ?thesis
    using mirror_groups_None[of groups "new_MirrorMapping d sd" "[]"]
          mirror_groups_Some[of groups d sd "[]"]
    by simp
qed

theorem mirrored_name_totality_witness:
  "re_match (solver_expression metahuman) ''_l_UERBFSolver''
     = Some [None, Some ''_l_'', Some ''UERBFSolver''] \<and>
   fst (get_mirrored_solver_name (new_MirrorMapping metahuman LEFT) ''_l_UERBFSolver'')
     = Inl TypeError"
proof -
  have h: "re_match (solver_expression metahuman) ''_l_UERBFSolver''
     = Some [None, Some ''_l_'', Some ''UERBFSolver'']"
    by (simp add: metahuman_def re_match_no_prefix)
  show ?thesis using h mirrored_name_totality[OF h, of LEFT] by simp
qed

section \<open>Properties of the mirrored rotation\<close>

declare std_rotation_quaternion.simps [simp del]
declare std_quaternion_as_matrix.simps [simp del]
declare std_rotation_euler.simps [simp del]
declare std_inverse.simps [simp del]

lemma mat_mult_left_id: "mat_mult kIdentity P = P"
  by (cases P rule: prod_cases4) (auto simp: kIdentity_def)

lemma mat_mult_right_id: "mat_mult P kIdentity = P"
  by (cases P rule: prod_cases4) (auto simp: kIdentity_def)

lemma sqrt_four: "sqrt 4 = 2"
  using real_sqrt_abs[of 2] by simp

lemma std_inverse_half_turn: "std_inverse half_turn_z = half_turn_z"
  by (simp add: half_turn_z_def det3_def std_inverse.simps)

lemma std_inverse_identity: "std_inverse kIdentity = kIdentity"
  by (simp add: kIdentity_def det3_def std_inverse.simps)

lemma std_euler_zero: "std_euler_as_matrix (0, 0, 0) = kIdentity"
  by (simp add: std_euler_as_matrix_def kIdentity_def)

lemma std_quaternion_identity: "std_rotation_quaternion kIdentity = (0, 0, 0, 1)"
  by (simp add: kIdentity_def sqrt_four std_rotation_quaternion.simps)

lemma std_quaternion_half_turn: "std_rotation_quaternion half_turn_z = (0, 0, 1, 0)"
  by (simp add: half_turn_z_def sqrt_four std_rotation_quaternion.simps)

lemma std_matrix_of_half_turn: "std_quaternion_as_matrix (0, 0, 1, 0) = half_turn_z"
  by (simp add: half_turn_z_def std_quaternion_as_matrix.simps)

lemma std_matrix_of_minus_one: "std_quaternion_as_matrix (0, 0, 0, - 1) = kIdentity"
  by (simp add: kIdentity_def std_quaternion_as_matrix.simps)

lemma std_euler_of_half_turn: "std_rotation_euler half_turn_z = (0, 0, pi)"
  by (simp add: half_turn_z_def atan2_def std_rotation_euler.simps)

lemma std_euler_of_identity: "std_rotation_euler kIdentity = (0, 0, 0)"
  by (simp add: kIdentity_def atan2_def std_rotation_euler.simps)

lemma half_turn_twice: "mat_mult half_turn_z half_turn_z = kIdentity"
  by (simp add: half_turn_z_def kIdentity_def)

lemma mirror_rotation_spec_half_turn:
  "mirror_rotation_spec std_OpenMaya half_turn_z kIdentity (0, 0, 0) = (0, 0, 180)"
  by (simp add: mirror_rotation_spec_def std_OpenMaya_def radians_def degrees_def
      std_inverse_identity std_euler_zero mat_mult_left_id mat_mult_right_id
      std_quaternion_half_turn std_matrix_of_half_turn std_euler_of_half_turn)

lemma mirror_rotation_half_turn:
  "mirror_rotation std_OpenMaya half_turn_z kIdentity (0, 0, 0) = (0, 0, 0)"
  by (simp add: mirror_rotation_def std_OpenMaya_def radians_def degrees_def
      std_inverse_identity std_inverse_half_turn std_euler_zero mat_mult_left_id
      mat_mult_right_id half_turn_twice std_quaternion_identity std_matrix_of_minus_one
      std_euler_of_identity)

text \<open>
  C3, as stated (the code computes the mirrored rotation by the specification's steps),
  fails: with a source parent turned by half a turn about Z, an identity target parent
  and no local rotation, the specification's steps give 180 degrees about Z and the code
  gives no rotation.
\<close>

theorem mirror_rotation_spec_counterexample:
  "mirror_rotation std_OpenMaya half_turn_z kIdentity (0, 0, 0) \<noteq>
   mirror_rotation_spec std_OpenMaya half_turn_z kIdentity (0, 0, 0)"
  by (simp add: mirror_rotation_half_turn mirror_rotation_spec_half_turn)

text \<open>
  C3, amended.  For every host, every pair of parent matrices \<open>P\<close> (source) and
  \<open>T\<close> (target) and every local Euler rotation in degrees: the Euler angles are
  converted to radians and to a rotation matrix \<open>D\<close>; \<open>D\<close> is composed into world space
  through the source parent (\<open>D * P\<close>) and brought back through the inverse of the source
  parent (\<open>inverse P * (D * P)\<close>); that matrix is converted to a quaternion, whose X and W
  components are negated; the quaternion is turned into a matrix \<open>R\<close>, which is conjugated
  by the target parent (\<open>(T * R) * inverse T\<close>); the result is converted to Euler angles
  and to degrees.
\<close>

theorem mirror_rotation_steps:
  "mirror_rotation om P T (rx, ry, rz) =
     (let D = euler_as_matrix om (radians rx, radians ry, radians rz);
          q = rotation_quaternion om (mat_mult (matrix_inverse om P) (mat_mult D P));
          R = quaternion_as_matrix om (- fst q, fst (snd q), fst (snd (snd q)), - snd (snd (snd q)))
      in (case rotation_euler om (mat_mult (mat_mult T R) (matrix_inverse om T)) of
            (ex, ey, ez) \<Rightarrow> (degrees ex, degrees ey, degrees ez)))"
  by (simp add: mirror_rotation_def Let_def split: prod.splits)

text \<open>
  C8 (mirror rotation identity).  For every host that inverts the two parent
  matrices (\<open>inverse P * P\<close> and \<open>T * inverse T\<close> are the identity) and whose conversions
  send no rotation to no rotation (the zero Euler rotation to the identity matrix, the
  identity matrix to the unit quaternion and to the zero Euler rotation, the quaternion
  \<open>(0, 0, 0, -1)\<close> to the identity matrix), the mirror of the local rotation
  \<open>(0, 0, 0)\<close> is \<open>(0, 0, 0)\<close>.
\<close>

theorem mirror_rotation_identity:
  assumes "mat_mult (matrix_inverse om P) P = kIdentity"
    and "mat_mult T (matrix_inverse om T) = kIdentity"
    and "euler_as_matrix om (0, 0, 0) = kIdentity"
    and "rotation_quaternion om kIdentity = (0, 0, 0, 1)"
    and "quaternion_as_matrix om (0, 0, 0, - 1) = kIdentity"
    and "rotation_euler om kIdentity = (0, 0, 0)"
  shows "mirror_rotation om P T (0, 0, 0) = (0, 0, 0)"
  using assms
  by (simp add: mirror_rotation_def radians_def degrees_def mat_mult_left_id
      mat_mult_right_id)

theorem mirror_rotation_identity_witness:
  "mat_mult (matrix_inverse std_OpenMaya half_turn_z) half_turn_z = kIdentity \<and>
   mat_mult half_turn_z (matrix_inverse std_OpenMaya half_turn_z) = kIdentity \<and>
   euler_as_matrix std_OpenMaya (0, 0, 0) = kIdentity \<and>
   rotation_quaternion std_OpenMaya kIdentity = (0, 0, 0, 1) \<and>
   quaternion_as_matrix std_OpenMaya (0, 0, 0, - 1) = kIdentity \<and>
   rotation_euler std_OpenMaya kIdentity = (0, 0, 0) \<and>
   mirror_rotation std_OpenMaya half_turn_z half_turn_z (0, 0, 0) = (0, 0, 0)"
proof -
  have h1: "mat_mult (matrix_inverse std_OpenMaya half_turn_z) half_turn_z = kIdentity"
    by (simp add: std_OpenMaya_def std_inverse_half_turn half_turn_twice)
  have h2: "mat_mult half_turn_z (matrix_inverse std_OpenMaya half_turn_z) = kIdentity"
    by (simp add: std_OpenMaya_def std_inverse_half_turn half_turn_twice)
  have h3: "euler_as_matrix std_OpenMaya (0, 0, 0) = kIdentity"
    by (simp add: std_OpenMaya_def std_euler_zero)
  have h4: "rotation_quaternion std_OpenMaya kIdentity = (0, 0, 0, 1)"
    by (simp add: std_OpenMaya_def std_quaternion_identity)
  have h5: "quaternion_as_matrix std_OpenMaya (0, 0, 0, - 1) = kIdentity"
    by (simp add: std_OpenMaya_def std_matrix_of_minus_one)
  have h6: "rotation_euler std_OpenMaya kIdentity = (0, 0, 0)"
    by (simp add: std_OpenMaya_def std_euler_of_identity)
  show ?thesis
    using h1 h2 h3 h4 h5 h6 mirror_rotation_identity[OF h1 h2 h3 h4 h5 h6] by simp
qed

section \<open>Properties of the pose network\<close>

lemma example_poses:
  "poses example_solver =
     Inr [(''default'',
           \<lparr>p_drivers = [identity_matrix], p_controllers = [],
            p_driven = [(Some ''J_l_elbow'', identity_matrix)], p_target_enable = True\<rparr>),
          (''raised'',
           \<lparr>p_drivers = [quarter_turn_z], p_controllers = [],
            p_driven = [(Some ''J_l_elbow'', quarter_turn_z)], p_target_enable = True\<rparr>)]"
  by (simp add: poses_def example_solver_def pose_def pose_index_def element_at_def
      multiIndices_def num_drivers_def num_controllers_def example_blender_def get_pose_def
      Let_def)

lemma example_num_poses: "num_poses example_solver = 2"
  by (simp add: num_poses_def example_solver_def)

lemma example_num_drivers: "num_drivers example_solver = 1"
  by (simp add: num_drivers_def example_solver_def)

text \<open>
  C4 (driver lock).  On a solver with more than one pose, \<^verbatim>\<open>RBFNode.add_driver\<close>
  and \<^verbatim>\<open>UERBFAPI.add_drivers\<close> raise the exception of the kind
  \<open>DriverLimitExceeded\<close> and leave the solver node as it was: the same drivers, the
  same number of poses.
\<close>

theorem driver_lock:
  assumes "num_poses s > 1"
  shows "(case add_driver sc s transform_nodes of
            (e, s') \<Rightarrow> (\<exists>err. e = Some err \<and> DriverLimitExceeded err) \<and> s' = s
                       \<and> drivers s' = drivers s \<and> num_poses s' = num_poses s) \<and>
         (case add_drivers sc s transform_nodes of
            (e, s') \<Rightarrow> (\<exists>err. e = Some err \<and> DriverLimitExceeded err) \<and> s' = s
                       \<and> drivers s' = drivers s \<and> num_poses s' = num_poses s)"
  using assms by (simp add: add_driver_def add_drivers_def DriverLimitExceeded_def)

theorem driver_lock_witness:
  "num_poses example_solver > 1 \<and>
   add_driver example_scene example_solver [''J_l_elbow''] =
     (Some (RuntimeError ''Unable to add driver after poses have been added''), example_solver) \<and>
   add_drivers example_scene example_solver [''J_l_elbow''] =
     (Some (InvalidPoseIndex ''Too many poses have been created, unable to add a new driver.''),
      example_solver)"
proof -
  have h: "num_poses example_solver > 1" by (simp add: example_num_poses)
  show ?thesis
    using h driver_lock[OF h, of example_scene "[''J_l_elbow'']"]
    by (simp add: add_driver_def add_drivers_def)
qed

lemma matrices_given:
  "(case drv of
      None \<Rightarrow> A
    | Some [] \<Rightarrow> A
    | Some (d # ds) \<Rightarrow> (case Some ms of None \<Rightarrow> X d ds | Some ms' \<Rightarrow> A)) = A"
  by (auto split: option.splits list.splits)

lemma widened_pose_unreadable:
  "has_pose widened_solver ''raised'' = Inl (InvalidPose ''Invalid Driver Indices'')"
  by (simp add: has_pose_def poses_def widened_solver_def other_solver_def pose_def
      pose_index_def element_at_def multiIndices_def num_drivers_def Let_def)

lemma unconnected_pose_unreadable:
  "has_pose (example_solver\<lparr>poseBlenders := Some []\<rparr>) ''elbow'' = Inl TypeError"
  by (simp add: has_pose_def poses_def example_solver_def pose_def
      pose_index_def element_at_def multiIndices_def num_drivers_def num_controllers_def Let_def)

text \<open>
  C5, as stated (for every solver with D >= 1 drivers and every pose name that no pose
  has, \<^verbatim>\<open>add_pose\<close> with a list of matrices whose length is not D raises the exception
  of the kind \<open>ArityMismatch\<close>), fails where \<^verbatim>\<open>has_pose\<close> raises: \<^verbatim>\<open>add_pose\<close>
  calls it before it compares the lengths.  After \<^verbatim>\<open>add_driver\<close> on a solver with one
  pose, that pose holds one driver matrix for two drivers and \<^verbatim>\<open>pose\<close> raises
  \<open>InvalidPose\<close> with \<^verbatim>\<open>Invalid Driver Indices\<close>; with a \<^verbatim>\<open>poseBlenders\<close> attribute
  that has no connection, \<^verbatim>\<open>pose\<close> iterates \<^verbatim>\<open>None\<close> and raises \<open>TypeError\<close>.
\<close>

theorem pose_arity_counterexample:
  "add_driver example_scene other_solver [''J_l_shoulder''] = (None, widened_solver) \<and>
   num_drivers widened_solver = 2 \<and>
   pose_index widened_solver ''raised'' = - 1 \<and>
   add_pose (transforms example_scene) widened_solver ''raised'' None (Some [quarter_turn_z])
       None None True =
     (Some (InvalidPose ''Invalid Driver Indices''), widened_solver) \<and>
   \<not> ArityMismatch (InvalidPose ''Invalid Driver Indices'') \<and>
   num_drivers (example_solver\<lparr>poseBlenders := Some []\<rparr>) = 1 \<and>
   pose_index (example_solver\<lparr>poseBlenders := Some []\<rparr>) ''elbow'' = - 1 \<and>
   add_pose (transforms example_scene) (example_solver\<lparr>poseBlenders := Some []\<rparr>) ''elbow'' None
       (Some [quarter_turn_z, quarter_turn_z]) None None True =
     (Some TypeError, example_solver\<lparr>poseBlenders := Some []\<rparr>) \<and>
   \<not> ArityMismatch TypeError"
proof -
  have a: "add_driver example_scene other_solver [''J_l_shoulder''] = (None, widened_solver)"
    by (simp add: add_driver_def num_poses_def other_solver_def objExists_def is_transform_def
        example_scene_def has_driver_def drivers_def connections_of_def num_drivers_def
        xform_query_def widened_solver_def Let_def)
  have b: "num_drivers widened_solver = 2"
    by (simp add: num_drivers_def widened_solver_def)
  have c: "pose_index widened_solver ''raised'' = - 1"
    by (simp add: pose_index_def widened_solver_def other_solver_def)
  have d: "add_pose (transforms example_scene) widened_solver ''raised'' None (Some [quarter_turn_z])
       None None True = (Some (InvalidPose ''Invalid Driver Indices''), widened_solver)"
    by (simp add: add_pose_def widened_pose_unreadable b)
  have e: "num_drivers (example_solver\<lparr>poseBlenders := Some []\<rparr>) = 1"
    by (simp add: num_drivers_def example_solver_def)
  have f: "pose_index (example_solver\<lparr>poseBlenders := Some []\<rparr>) ''elbow'' = - 1"
    by (simp add: pose_index_def example_solver_def)
  have g: "add_pose (transforms example_scene) (example_solver\<lparr>poseBlenders := Some []\<rparr>) ''elbow'' None
       (Some [quarter_turn_z, quarter_turn_z]) None None True =
     (Some TypeError, example_solver\<lparr>poseBlenders := Some []\<rparr>)"
    by (simp add: add_pose_def unconnected_pose_unreadable e)
  show ?thesis using a b c d e f g by (simp add: ArityMismatch_def)
qed

text \<open>
  C5, amended.  On a solver with D >= 1 drivers, \<^verbatim>\<open>add_pose\<close> with a list of matrices
  whose length is not D always raises and leaves the solver node as it was: nothing is
  stored, the number of poses is the same.  When \<^verbatim>\<open>has_pose\<close> returns \<^verbatim>\<open>False\<close> for
  the name, the exception is of the kind \<open>ArityMismatch\<close>; when it returns \<^verbatim>\<open>True\<close>,
  the exception is the one for a name that exists; when \<^verbatim>\<open>has_pose\<close> raises, the
  exception is the one it raised.
\<close>

theorem pose_arity:
  assumes "num_drivers s \<ge> 1" and "length matrices \<noteq> num_drivers s"
  shows "\<exists>err. add_pose tr s pose_name drivers_arg (Some matrices) controller_matrices
                 driven_matrices target_enable = (Some err, s) \<and>
               (has_pose s pose_name = Inr False \<longrightarrow> ArityMismatch err) \<and>
               (has_pose s pose_name = Inr True \<longrightarrow>
                  err = InvalidPose (''Already a pose called: '' @ quoted pose_name)) \<and>
               (\<forall>e. has_pose s pose_name = Inl e \<longrightarrow> err = e)"
proof (cases "has_pose s pose_name")
  case (Inl e)
  then show ?thesis using assms by (simp add: add_pose_def matrices_given)
next
  case (Inr b)
  then show ?thesis using assms
    by (cases b) (simp_all add: add_pose_def matrices_given ArityMismatch_def)
qed


theorem pose_arity_witness:
  "num_drivers example_solver \<ge> 1 \<and>
   length [quarter_turn_z, quarter_turn_z] \<noteq> num_drivers example_solver \<and>
   has_pose example_solver ''elbow'' = Inr False \<and>
   add_pose (transforms example_scene) example_solver ''elbow'' None
       (Some [quarter_turn_z, quarter_turn_z]) None None True =
     (Some (InvalidPose ''Invalid number of matrices. Must match number of drivers.''),
      example_solver) \<and>
   has_pose example_solver ''raised'' = Inr True \<and>
   add_pose (transforms example_scene) example_solver ''raised'' None
       (Some [quarter_turn_z, quarter_turn_z]) None None True =
     (Some (InvalidPose (''Already a pose called: '' @ quoted ''raised'')), example_solver) \<and>
   num_drivers widened_solver \<ge> 1 \<and>
   length [quarter_turn_z] \<noteq> num_drivers widened_solver \<and>
   has_pose widened_solver ''raised'' = Inl (InvalidPose ''Invalid Driver Indices'') \<and>
   add_pose (transforms example_scene) widened_solver ''raised'' None (Some [quarter_turn_z])
       None None True =
     (Some (InvalidPose ''Invalid Driver Indices''), widened_solver)"
proof -
  have h1: "num_drivers example_solver \<ge> 1" by (simp add: example_num_drivers)
  have h2: "has_pose example_solver ''elbow'' = Inr False"
    by (simp add: has_pose_def example_poses)
  have h3: "length [quarter_turn_z, quarter_turn_z] \<noteq> num_drivers example_solver"
    by (simp add: example_num_drivers)
  have h4: "has_pose example_solver ''raised'' = Inr True"
    by (simp add: has_pose_def example_poses)
  have h5: "num_drivers widened_solver \<ge> 1" "length [quarter_turn_z] \<noteq> num_drivers widened_solver"
    by (simp_all add: num_drivers_def widened_solver_def)
  note h6 = widened_pose_unreadable
  from pose_arity[OF h1 h3, of "transforms example_scene" "''elbow''" None None None True] h2
  have p1: "add_pose (transforms example_scene) example_solver ''elbow'' None
       (Some [quarter_turn_z, quarter_turn_z]) None None True =
     (Some (InvalidPose ''Invalid number of matrices. Must match number of drivers.''),
      example_solver)"
    by (auto simp: ArityMismatch_def)
  from pose_arity[OF h1 h3, of "transforms example_scene" "''raised''" None None None True] h4
  have p2: "add_pose (transforms example_scene) example_solver ''raised'' None
       (Some [quarter_turn_z, quarter_turn_z]) None None True =
     (Some (InvalidPose (''Already a pose called: '' @ quoted ''raised'')), example_solver)"
    by auto
  from pose_arity[OF h5, of "transforms example_scene" "''raised''" None None None True] h6
  have p3: "add_pose (transforms example_scene) widened_solver ''raised'' None (Some [quarter_turn_z])
       None None True = (Some (InvalidPose ''Invalid Driver Indices''), widened_solver)"
    by auto
  show ?thesis using h1 h2 h3 h4 h5 h6 p1 p2 p3 by simp
qed


lemma pose_index_loop_absent:
  "pose_name \<notin> set (map (targetName \<circ> snd) ts) \<Longrightarrow> pose_index_loop ts pose_name = - 1"
  by (induction ts) auto

lemma is_pose_muted_InvalidPoseIndex:
  "(\<exists>msg. is_pose_muted s pose_name i = Inl (InvalidPoseIndex msg)) \<longleftrightarrow>
   (pose_name = [] \<and> i < 0)"
  by (auto simp: is_pose_muted_def getAttr_targetEnable_def split: sum.splits if_splits)

text \<open>
  C9, as stated (with a non-empty name that no pose has, \<^verbatim>\<open>mute_pose\<close> does not raise
  \<open>InvalidPoseIndex\<close>), fails when \<^verbatim>\<open>mute\<close> is \<^verbatim>\<open>None\<close>: the toggle asks
  \<^verbatim>\<open>is_pose_muted(pose_index=-1)\<close> without the name, which raises
  \<open>InvalidPoseIndex\<close>.
\<close>

theorem mute_toggle_counterexample:
  "fst (mute_pose example_solver ''elbow'' (- 1) None) =
     Inl (InvalidPoseIndex ''Unable to query the mute status, no pose name or index specified'')"
  by (simp add: mute_pose_def is_pose_muted_def pose_index_def example_solver_def)

text \<open>
  C9, amended.  For every solver and every non-empty pose name that no pose of the
  solver has, the name resolves to the index -1; \<^verbatim>\<open>is_pose_muted\<close>, and
  \<^verbatim>\<open>mute_pose\<close> with \<^verbatim>\<open>mute\<close> given as \<^verbatim>\<open>True\<close> or \<^verbatim>\<open>False\<close>, do not raise
  \<open>InvalidPoseIndex\<close>: they go on to read, respectively write, \<^verbatim>\<open>targetEnable\<close> at
  index -1 and their outcome is the outcome of that access.  \<^verbatim>\<open>is_pose_muted\<close> raises
  \<open>InvalidPoseIndex\<close> exactly when the name is empty and the index negative.
  \<^verbatim>\<open>mute_pose\<close> with \<^verbatim>\<open>mute=None\<close> raises \<open>InvalidPoseIndex\<close> for such a name, and
  leaves the solver as it was.
\<close>

theorem mute_missing_pose:
  assumes "pose_name \<noteq> []"
    and "pose_name \<notin> set (map (targetName \<circ> snd) (targets s))"
  shows "pose_index s pose_name = - 1 \<and>
         is_pose_muted s pose_name (- 1) = map_sum id Not (getAttr_targetEnable s (- 1)) \<and>
         mute_pose s pose_name (- 1) (Some m) =
           (case setAttr_targetEnable s (- 1) (\<not> m) of
              (Some e, s') \<Rightarrow> (Inl e, s')
            | (None, s') \<Rightarrow> (Inr (\<not> m), s')) \<and>
         (\<forall>msg. is_pose_muted s pose_name (- 1) \<noteq> Inl (InvalidPoseIndex msg)) \<and>
         (\<forall>msg. fst (mute_pose s pose_name (- 1) (Some m)) \<noteq> Inl (InvalidPoseIndex msg)) \<and>
         (\<forall>n i. (\<exists>msg. is_pose_muted s n i = Inl (InvalidPoseIndex msg)) \<longleftrightarrow> (n = [] \<and> i < 0)) \<and>
         mute_pose s pose_name (- 1) None =
           (Inl (InvalidPoseIndex
              ''Unable to query the mute status, no pose name or index specified''), s)"
proof -
  have idx: "pose_index s pose_name = - 1"
    using assms(2) by (simp add: pose_index_def pose_index_loop_absent)
  have "mute_pose s pose_name (- 1) None =
           (Inl (InvalidPoseIndex
              ''Unable to query the mute status, no pose name or index specified''), s)"
    using assms(1) idx by (simp add: is_pose_muted_def mute_pose_def)
  moreover have "is_pose_muted s pose_name (- 1) = map_sum id Not (getAttr_targetEnable s (- 1))"
    using assms(1) idx by (simp add: is_pose_muted_def getAttr_targetEnable_def)
  moreover have "mute_pose s pose_name (- 1) (Some m) =
           (case setAttr_targetEnable s (- 1) (\<not> m) of
              (Some e, s') \<Rightarrow> (Inl e, s')
            | (None, s') \<Rightarrow> (Inr (\<not> m), s'))"
    using assms(1) idx by (simp add: mute_pose_def)
  moreover have "\<forall>msg. fst (mute_pose s pose_name (- 1) (Some m)) \<noteq> Inl (InvalidPoseIndex msg)"
    using assms(1) idx by (simp add: mute_pose_def setAttr_targetEnable_def)
  moreover have "\<forall>msg. is_pose_muted s pose_name (- 1) \<noteq> Inl (InvalidPoseIndex msg)"
    using assms(1) is_pose_muted_InvalidPoseIndex[of s pose_name "- 1"] by blast
  ultimately show ?thesis
    using idx is_pose_muted_InvalidPoseIndex[of s] by blast
qed

theorem mute_missing_pose_witness:
  "''elbow'' \<noteq> [] \<and>
   ''elbow'' \<notin> set (map (targetName \<circ> snd) (targets example_solver)) \<and>
   pose_index example_solver ''elbow'' = - 1 \<and>
   is_pose_muted example_solver ''elbow'' (- 1) = Inl MayaError \<and>
   mute_pose example_solver ''elbow'' (- 1) (Some True) = (Inl MayaError, example_solver)"
proof -
  have h1: "''elbow'' \<noteq> []" by simp
  have h2: "''elbow'' \<notin> set (map (targetName \<circ> snd) (targets example_solver))"
    by (simp add: example_solver_def)
  show ?thesis
    using h1 h2 mute_missing_pose[OF h1 h2, of True]
    by (simp add: getAttr_targetEnable_def setAttr_targetEnable_def)
qed

section \<open>Properties of edit mode\<close>

lemma map_of_dict_set:
  "map_of (dict_set k v d) = (map_of d)(k \<mapsto> v)"
  by (induction d) (auto simp: fun_eq_iff)

lemma map_fst_dict_set:
  "k \<in> set (map fst d) \<Longrightarrow> map fst (dict_set k v d) = map fst d"
  by (induction d) force+

lemma force_base_pose_solvers:
  "force_base_pose self n st = (e, st') \<Longrightarrow> solvers st' = solvers st"
  by (auto simp: force_base_pose_def split: if_splits option.splits sum.splits bool.splits prod.splits)

lemma force_loop_solvers:
  "for_loop (force_base_pose self) xs st = (e, st') \<Longrightarrow> solvers st' = solvers st"
proof (induction xs arbitrary: st)
  case Nil
  then show ?case by simp
next
  case (Cons x xs)
  obtain e1 st1 where b: "force_base_pose self x st = (e1, st1)" by (cases "force_base_pose self x st")
  show ?case
  proof (cases e1)
    case None
    with Cons.prems b have "for_loop (force_base_pose self) xs st1 = (e, st')" by simp
    from Cons.IH[OF this] force_base_pose_solvers[OF b] show ?thesis by simp
  next
    case (Some err)
    with Cons.prems b have "st' = st1" by simp
    with force_base_pose_solvers[OF b] show ?thesis by simp
  qed
qed

lemma force_loop_transforms:
  "for_loop (force_base_pose self) xs st = (None, st') \<Longrightarrow>
   for_loop (go_to_default (solvers st))
     (filter (\<lambda>n. n \<noteq> self \<and> has_default (solvers st) n) xs) (transforms st)
   = (None, transforms st')"
proof (induction xs arbitrary: st)
  case Nil
  then show ?case by simp
next
  case (Cons x xs)
  obtain e1 st1 where b: "force_base_pose self x st = (e1, st1)" by (cases "force_base_pose self x st")
  with Cons.prems have e1: "e1 = None" by (cases e1) auto
  with Cons.prems b have rest: "for_loop (force_base_pose self) xs st1 = (None, st')" by simp
  have sv: "solvers st1 = solvers st" using force_base_pose_solvers[OF b] .
  note ih = Cons.IH[OF rest, unfolded sv]
  show ?case
  proof (cases "x \<noteq> self \<and> has_default (solvers st) x")
    case True
    then obtain node where node: "map_of (solvers st) x = Some node" "has_pose node ''default'' = Inr True"
      by (auto simp: has_default_def split: option.splits)
    with True b e1 have "go_to_pose (transforms st) node ''default'' = (None, transforms st1)"
      by (auto simp: force_base_pose_def split: prod.splits)
    then have "go_to_default (solvers st) x (transforms st) = (None, transforms st1)"
      using node by (simp add: go_to_default_def)
    with True ih show ?thesis by simp
  next
    case False
    with b e1 have "transforms st1 = transforms st"
      by (auto simp: force_base_pose_def has_default_def split: if_splits option.splits sum.splits bool.splits prod.splits)
    moreover from False
    have "filter (\<lambda>n. n \<noteq> self \<and> has_default (solvers st) n) (x # xs) =
          filter (\<lambda>n. n \<noteq> self \<and> has_default (solvers st) n) xs"
      by auto
    ultimately show ?thesis using ih by simp
  qed
qed

lemma set_blender_edit_True:
  "set_blender_edit tr b True = Inr b' \<Longrightarrow> blender_edit b'"
  by (auto simp: set_blender_edit_def blender_edit_def split: option.splits sum.splits)

lemma blenders_loop_edit:
  "blenders_loop (\<lambda>b. outcome b (set_blender_edit tr b True)) bs = (None, bs') \<Longrightarrow>
   length bs' = length bs \<and> (\<forall>(n, b) \<in> set bs'. blender_edit b)"
proof (induction bs arbitrary: bs')
  case Nil
  then show ?case by simp
next
  case (Cons p bs)
  obtain n b where p: "p = (n, b)" by (cases p)
  show ?case
    using Cons.prems Cons.IH set_blender_edit_True[of tr b]
    by (auto simp: p outcome_def split: sum.splits prod.splits option.splits)
qed

lemma edit_self_status:
  assumes "on_pose_blenders (\<lambda>b. outcome b (set_blender_edit tr b True)) s = (None, s')"
  shows "get_solver_edit_status s' = Inr (poseBlenders s \<noteq> None)"
proof (cases "poseBlenders s")
  case None
  with assms show ?thesis by (simp add: on_pose_blenders_def get_solver_edit_status_def)
next
  case (Some bs)
  show ?thesis
  proof (cases bs)
    case Nil
    with Some assms show ?thesis by (simp add: on_pose_blenders_def)
  next
    case (Cons p ps)
    obtain e bs' where l: "blenders_loop (\<lambda>b. outcome b (set_blender_edit tr b True)) bs = (e, bs')"
      by (cases "blenders_loop (\<lambda>b. outcome b (set_blender_edit tr b True)) bs")
    with assms Some Cons have e: "e = None" and s': "s' = s\<lparr>poseBlenders := Some bs'\<rparr>"
      by (auto simp: on_pose_blenders_def)
    from blenders_loop_edit[OF l[unfolded e]] Cons
    obtain q qs where bs': "bs' = q # qs" and all: "\<forall>(n, b) \<in> set bs'. blender_edit b"
      by (cases bs') auto
    then show ?thesis
      using Some s' by (auto simp: get_solver_edit_status_def)
  qed
qed

lemma example_edit_solver:
  "fst (edit_solver example_scene ''arm_l_UERBFSolver'' True) = None \<and>
   edit_status example_scene ''arm_r_UERBFSolver'' = Some (Inr True) \<and>
   edit_status (snd (edit_solver example_scene ''arm_l_UERBFSolver'' True)) ''arm_r_UERBFSolver''
     = Some (Inr True) \<and>
   edit_status (snd (edit_solver example_scene ''arm_l_UERBFSolver'' True)) ''arm_l_UERBFSolver''
     = Some (Inr True)"
  by (simp add: edit_solver_def example_scene_def on_pose_blenders_def example_solver_def
      example_blender_def outcome_def set_blender_edit_def xform_query_def find_all_def
      force_base_pose_def has_pose_def poses_def pose_def pose_index_def element_at_def
      multiIndices_def num_drivers_def num_controllers_def other_solver_def other_blender_def
      get_pose_def go_to_pose_def drivers_def connections_of_def set_transforms_def
      xform_set_def blender_go_to_pose_def edit_status_def get_solver_edit_status_def
      blender_edit_def Let_def)

text \<open>
  C7, as stated (after \<^verbatim>\<open>edit_solver(S, edit=True)\<close> no other solver is in edit
  mode), fails: in the example scene the right-arm solver is in edit mode before the
  left-arm solver enters edit mode, and both are in edit mode afterwards.
\<close>

theorem single_editor_counterexample:
  "fst (edit_solver example_scene ''arm_l_UERBFSolver'' True) = None \<and>
   edit_status example_scene ''arm_r_UERBFSolver'' = Some (Inr True) \<and>
   edit_status (snd (edit_solver example_scene ''arm_l_UERBFSolver'' True)) ''arm_r_UERBFSolver''
     = Some (Inr True) \<and>
   edit_status (snd (edit_solver example_scene ''arm_l_UERBFSolver'' True)) ''arm_l_UERBFSolver''
     = Some (Inr True)"
  by (rule example_edit_solver)

text \<open>
  C7, amended.  When \<^verbatim>\<open>edit_solver(S, edit=True)\<close> returns: every other solver that
  has a pose named \<^verbatim>\<open>default\<close> has been sent to it, in the order of the scene
  (\<^verbatim>\<open>go_to_pose('default')\<close>, which writes transforms); no other solver node has changed,
  so each other solver has the edit status it had before, in edit mode or not; and \<open>S\<close>
  is in edit mode if it has pose blenders.
\<close>

theorem edit_solver_effect:
  assumes "edit_solver sc self True = (None, sc')"
  shows "(\<forall>n. n \<noteq> self \<longrightarrow> map_of (solvers sc') n = map_of (solvers sc) n
                         \<and> edit_status sc' n = edit_status sc n) \<and>
         for_loop (go_to_default (solvers sc))
           (filter (\<lambda>n. n \<noteq> self \<and> has_default (solvers sc) n) (find_all sc)) (transforms sc)
           = (None, transforms sc') \<and>
         (\<exists>s. map_of (solvers sc) self = Some s \<and>
              edit_status sc' self = Some (Inr (poseBlenders s \<noteq> None)))"
proof -
  from assms obtain s where s: "map_of (solvers sc) self = Some s"
    by (auto simp: edit_solver_def split: option.splits)
  obtain e s' where ob: "on_pose_blenders (\<lambda>b. outcome b (set_blender_edit (transforms sc) b True)) s = (e, s')"
    by (cases "on_pose_blenders (\<lambda>b. outcome b (set_blender_edit (transforms sc) b True)) s")
  define sc1 where "sc1 = sc\<lparr>solvers := dict_set self s' (solvers sc)\<rparr>"
  from assms s ob have e: "e = None"
    by (cases e) (auto simp: edit_solver_def Let_def)
  from assms s ob e have loop: "for_loop (force_base_pose self) (find_all sc1) sc1 = (None, sc')"
    by (simp add: edit_solver_def sc1_def Let_def)
  have sv: "solvers sc' = dict_set self s' (solvers sc)"
    using force_loop_solvers[OF loop] by (simp add: sc1_def)
  have others: "\<And>n. n \<noteq> self \<Longrightarrow> map_of (solvers sc') n = map_of (solvers sc) n"
    by (simp add: sv map_of_dict_set)
  have self_in: "self \<in> set (map fst (solvers sc))"
    using s by (metis map_of_eq_None_iff option.distinct(1) set_map)
  have names: "find_all sc1 = find_all sc"
    by (simp add: find_all_def sc1_def map_fst_dict_set[OF self_in])
  have hd: "\<And>n. n \<noteq> self \<Longrightarrow> has_default (solvers sc1) n = has_default (solvers sc) n"
    by (simp add: has_default_def sc1_def map_of_dict_set)
  have gd: "\<And>n. n \<noteq> self \<Longrightarrow> go_to_default (solvers sc1) n = go_to_default (solvers sc) n"
    by (simp add: go_to_default_def sc1_def map_of_dict_set fun_eq_iff)
  have filt: "filter (\<lambda>n. n \<noteq> self \<and> has_default (solvers sc1) n) (find_all sc) =
              filter (\<lambda>n. n \<noteq> self \<and> has_default (solvers sc) n) (find_all sc)"
    using hd by (intro filter_cong) auto
  have loop_eq: "\<And>xs tr. \<forall>n \<in> set xs. n \<noteq> self \<Longrightarrow>
      for_loop (go_to_default (solvers sc1)) xs tr = for_loop (go_to_default (solvers sc)) xs tr"
  proof -
    fix xs tr show "\<forall>n \<in> set xs. n \<noteq> self \<Longrightarrow>
      for_loop (go_to_default (solvers sc1)) xs tr = for_loop (go_to_default (solvers sc)) xs tr"
      by (induction xs arbitrary: tr) (auto simp: gd split: prod.splits option.splits)
  qed
  have tr: "for_loop (go_to_default (solvers sc))
           (filter (\<lambda>n. n \<noteq> self \<and> has_default (solvers sc) n) (find_all sc)) (transforms sc)
           = (None, transforms sc')"
    using force_loop_transforms[OF loop] loop_eq[of "filter (\<lambda>n. n \<noteq> self \<and> has_default (solvers sc) n) (find_all sc)" "transforms sc"]
    by (simp add: names filt) (simp add: sc1_def)
  have self_status: "edit_status sc' self = Some (Inr (poseBlenders s \<noteq> None))"
    using edit_self_status[OF ob[unfolded e]] by (simp add: edit_status_def sv map_of_dict_set)
  show ?thesis
    using others tr s self_status by (simp add: edit_status_def)
qed

theorem edit_solver_effect_witness:
  "edit_solver example_scene ''arm_l_UERBFSolver'' True =
     (None, snd (edit_solver example_scene ''arm_l_UERBFSolver'' True)) \<and>
   edit_status (snd (edit_solver example_scene ''arm_l_UERBFSolver'' True)) ''arm_r_UERBFSolver''
     = edit_status example_scene ''arm_r_UERBFSolver''"
proof -
  have h: "edit_solver example_scene ''arm_l_UERBFSolver'' True =
     (None, snd (edit_solver example_scene ''arm_l_UERBFSolver'' True))"
    using example_edit_solver by (simp add: prod_eq_iff)
  show ?thesis
    using h edit_solver_effect[OF h] by simp
qed

section \<open>Deleting a pose\<close>

lemma enum_from_Nil [simp]: "enum_from a [] = []"
  by (simp add: enum_from_def)

lemma enum_from_Cons [simp]: "enum_from a (x # xs) = (int a, x) # enum_from (Suc a) xs"
  by (simp add: enum_from_def upt_rec)

lemma enumerate_int_enum: "enumerate_int xs = enum_from 0 xs"
  by (simp add: enumerate_int_def enum_from_def)

lemma enum_from_append: "enum_from a (xs @ ys) = enum_from a xs @ enum_from (a + length xs) ys"
  by (induction xs arbitrary: a) auto

lemma map_fst_enum [simp]: "map fst (enum_from a xs) = map int [a ..< a + length xs]"
  by (simp add: enum_from_def)

lemma map_snd_enum [simp]: "map snd (enum_from a xs) = xs"
  by (simp add: enum_from_def)

lemma length_enum [simp]: "length (enum_from a xs) = length xs"
  by (simp add: enum_from_def)

lemma dense_enum: "dense m \<Longrightarrow> m = enum_from 0 (map snd m)"
  unfolding dense_def enum_from_def
  by (metis add_0 length_map zip_map_fst_snd)

lemma dense_enum_from [simp]: "dense (enum_from 0 xs)"
  by (simp add: dense_def)

lemma keys_enum: "(k, x) \<in> set (enum_from a xs) \<Longrightarrow> int a \<le> k \<and> k < int (a + length xs)"
  by (auto simp: enum_from_def dest!: set_zip_leftD)

lemma map_of_enum: "i < length xs \<Longrightarrow> map_of (enum_from a xs) (int (a + i)) = Some (xs ! i)"
proof (induction xs arbitrary: a i)
  case Nil
  then show ?case by simp
next
  case (Cons x xs)
  show ?case
  proof (cases i)
    case 0
    then show ?thesis by simp
  next
    case (Suc j)
    with Cons.prems have "j < length xs" by simp
    from Cons.IH[OF this, of "Suc a"] Suc show ?thesis by simp
  qed
qed

lemma map_of_enum_out: "k < int a \<or> int (a + length xs) \<le> k \<Longrightarrow> map_of (enum_from a xs) k = None"
  using keys_enum[of k _ a xs] by (meson linorder_not_less map_of_SomeD not_Some_eq)

lemma setElement_end: "\<forall>(k, x) \<in> set m. k < i \<Longrightarrow> setElement i v m = m @ [(i, v)]"
  by (induction m) auto

lemma setElement_last:
  "\<forall>(k, x) \<in> set m. k < i \<Longrightarrow> setElement i v (m @ [(i, w)]) = m @ [(i, v)]"
  by (induction m) auto

lemma setElement_enum_end:
  "setElement (int (a + length xs)) v (enum_from a xs) = enum_from a (xs @ [v])"
proof -
  have "\<forall>(k, x) \<in> set (enum_from a xs). k < int (a + length xs)"
    using keys_enum by fastforce
  then show ?thesis by (simp add: setElement_end enum_from_append)
qed

lemma setElement_enum_same:
  "j < length xs \<Longrightarrow> setElement (int (a + j)) (xs ! j) (enum_from a xs) = enum_from a xs"
proof (induction xs arbitrary: a j)
  case Nil
  then show ?case by simp
next
  case (Cons x xs)
  show ?case
  proof (cases j)
    case 0
    then show ?thesis by simp
  next
    case (Suc i)
    with Cons.prems have "i < length xs" by simp
    from Cons.IH[OF this, of "Suc a"] Suc show ?thesis by simp
  qed
qed

lemma fold_remove: "fold removeMultiInstance is m = filter (\<lambda>(k, x). k \<notin> set is) m"
proof (induction "is" arbitrary: m)
  case Nil
  then show ?case by simp
next
  case (Cons i "is")
  have "fold removeMultiInstance (i # is) m =
        filter (\<lambda>(k, x). k \<notin> set is) (removeMultiInstance i m)"
    by (simp add: Cons.IH)
  also have "\<dots> = filter (\<lambda>(k, x). k \<notin> set (i # is)) m"
    by (auto simp: removeMultiInstance_def intro: filter_cong)
  finally show ?case .
qed

lemma remove_all_enum:
  "fold removeMultiInstance (rev (map int [0 ..< length xs])) (enum_from 0 xs) = []"
proof -
  have "\<forall>(k, x) \<in> set (enum_from 0 xs). k \<in> set (map int [0 ..< length xs])"
    by (auto simp: enum_from_def dest!: set_zip_leftD)
  then show ?thesis
    by (auto simp: fold_remove filter_empty_conv)
qed

lemma pose_index_loop_distinct:
  "distinct (map (targetName \<circ> snd) ts) \<Longrightarrow> (i, t) \<in> set ts \<Longrightarrow>
   pose_index_loop ts (targetName t) = i"
  by (induction ts) (auto simp: rev_image_eqI)

lemma dense_distinct_keys: "dense m \<Longrightarrow> distinct (map fst m)"
  by (simp add: dense_def distinct_map inj_on_def)

lemma dense_keys_nonneg: "dense m \<Longrightarrow> (i, x) \<in> set m \<Longrightarrow> 0 \<le> i"
  using keys_enum[of i x 0 "map snd m"] dense_enum[of m] by simp

lemma element_at_member:
  "dense m \<Longrightarrow> (i, x) \<in> set m \<Longrightarrow> element_at d m i = x"
  by (simp add: element_at_def dense_distinct_keys)

lemma driven_fold:
  "(case poseBlenders s of None \<Rightarrow> Inr [] | Some [] \<Rightarrow> Inl TypeError
    | Some bs \<Rightarrow> Inr (fold (\<lambda>(n, b) d. dict_set (drivenTransform b) (get_pose b i) d) bs []))
   = (if poseBlenders s = Some [] then Inl TypeError else Inr (driven_data s i))"
  by (auto simp: driven_data_def solver_blenders_def split: option.splits list.splits)

lemma pose_readable:
  assumes "pose_invariants s" and "(i, t) \<in> set (targets s)"
  shows "pose s (targetName t) = Inr (pose_of s (i, t))"
proof -
  from assms have d: "dense (targets s)" and dn: "distinct (map (targetName \<circ> snd) (targets s))"
    and nd: "num_drivers s \<noteq> 0" and pb: "poseBlenders s \<noteq> Some []"
    and t: "length (targetValues t) = num_drivers s"
           "length (targetControllers t) = num_controllers s"
    by (auto simp: pose_invariants_def)
  have idx: "pose_index s (targetName t) = i"
    using pose_index_loop_distinct[OF dn assms(2)] by (simp add: pose_index_def)
  have nonneg: "0 \<le> i" using dense_keys_nonneg[OF d assms(2)] .
  have el: "element_at new_target (targets s) i = t"
    using element_at_member[OF d assms(2)] .
  have vs: "targetValues t \<noteq> []" using t nd by auto
  show ?thesis
    unfolding pose_def idx Let_def el driven_fold
    using nonneg t vs pb by (simp add: multiIndices_def pose_of_def)
qed

lemma dict_set_new: "k \<notin> set (map fst d) \<Longrightarrow> dict_set k v d = d @ [(k, v)]"
  by (induction d) auto

lemma poses_loop_readable:
  assumes "\<forall>e \<in> set rest. pose s (targetName (snd e)) = Inr (pose_of s e) \<and> targetName (snd e) \<noteq> []"
    and "distinct (map (targetName \<circ> snd) rest)"
    and "set (map (targetName \<circ> snd) rest) \<inter> set (map fst acc) = {}"
  shows "poses_loop s rest acc = Inr (acc @ map (\<lambda>e. (targetName (snd e), pose_of s e)) rest)"
  using assms
proof (induction rest arbitrary: acc)
  case Nil
  then show ?case by simp
next
  case (Cons e rest)
  obtain i t where e: "e = (i, t)" by (cases e)
  from Cons.prems have p: "pose s (targetName t) = Inr (pose_of s (i, t))" and ne: "targetName t \<noteq> []"
    and new: "targetName t \<notin> set (map fst acc)"
    by (auto simp: e)
  have step: "poses_loop s (e # rest) acc = poses_loop s rest (acc @ [(targetName t, pose_of s (i, t))])"
    by (simp add: e p ne dict_set_new[OF new])
  have "poses_loop s rest (acc @ [(targetName t, pose_of s (i, t))]) =
        Inr ((acc @ [(targetName t, pose_of s (i, t))]) @ map (\<lambda>e. (targetName (snd e), pose_of s e)) rest)"
    using Cons.prems by (intro Cons.IH) (auto simp: e)
  with step show ?case by (simp add: e)
qed

lemma poses_readable:
  assumes "pose_invariants s"
  shows "poses s = Inr (map (\<lambda>e. (targetName (snd e), pose_of s e)) (targets s))"
proof -
  have "\<forall>e \<in> set (targets s). pose s (targetName (snd e)) = Inr (pose_of s e) \<and> targetName (snd e) \<noteq> []"
    using assms pose_readable[OF assms] by (auto simp: pose_invariants_def)
  moreover have "distinct (map (targetName \<circ> snd) (targets s))"
    using assms by (simp add: pose_invariants_def)
  ultimately show ?thesis
    unfolding poses_def using poses_loop_readable[of "targets s" s "[]"] by simp
qed

lemma has_pose_readable:
  "pose_invariants s \<Longrightarrow>
   has_pose s pose_name = Inr (pose_name \<in> set (map (targetName \<circ> snd) (targets s)))"
  by (simp add: has_pose_def poses_readable comp_def)

lemma list_pop_in_range:
  "k < length xs \<Longrightarrow> list_pop xs (int k) = Inr (remove_at k xs)"
  by (simp add: list_pop_def remove_at_def)

lemma set_pose_given:
  "0 \<le> i \<Longrightarrow> set_pose tr b i n (Some m) = Inr (b\<lparr>blender_poses := setElement i m (blender_poses b)\<rparr>)"
  by (simp add: set_pose_def)

lemma write_back_loop:
  assumes "blender_poses b = enum_from 0 pre" and "length pre = a"
  shows "for_loop
           (\<lambda>(pose_index, matrix) b'.
              case set_pose tr b' pose_index [] (Some matrix) of
                Inl e \<Rightarrow> (Some e, b')
              | Inr b'' \<Rightarrow> (None, b''))
           (enum_from a xs) b
         = (None, b\<lparr>blender_poses := enum_from 0 (pre @ xs)\<rparr>)"
  using assms
proof (induction xs arbitrary: a pre b)
  case Nil
  then show ?case by simp
next
  case (Cons x xs)
  let ?b1 = "b\<lparr>blender_poses := enum_from 0 (pre @ [x])\<rparr>"
  have s: "setElement (int a) x (blender_poses b) = enum_from 0 (pre @ [x])"
    using setElement_enum_end[of 0 pre x] Cons.prems by simp
  have "blender_poses ?b1 = enum_from 0 (pre @ [x])" "length (pre @ [x]) = Suc a"
    using Cons.prems by simp_all
  from Cons.IH[OF this] s show ?case
    by (simp add: set_pose_given)
qed

lemma blender_delete_pose_dense:
  assumes "dense (blender_poses b)" and "k < length (blender_poses b)"
  shows "blender_delete_pose tr b (int k) [] =
           (None, b\<lparr>blender_poses := enum_from 0 (remove_at k (map snd (blender_poses b)))\<rparr>)"
proof -
  let ?ms = "map snd (blender_poses b)"
  have bp: "blender_poses b = enum_from 0 ?ms" using dense_enum[OF assms(1)] .
  have rm: "fold removeMultiInstance (rev (map int [0 ..< length ?ms])) (blender_poses b) = []"
    using remove_all_enum[of ?ms] bp by simp
  have pop: "list_pop ?ms (int k) = Inr (remove_at k ?ms)"
    using assms(2) by (simp add: list_pop_in_range)
  let ?b1 = "b\<lparr>blender_poses := []\<rparr>"
  have wb: "for_loop
           (\<lambda>(pose_index, matrix) b'.
              case set_pose tr b' pose_index [] (Some matrix) of
                Inl e \<Rightarrow> (Some e, b')
              | Inr b'' \<Rightarrow> (None, b''))
           (enum_from 0 (remove_at k ?ms)) ?b1
         = (None, ?b1\<lparr>blender_poses := enum_from 0 ([] @ remove_at k ?ms)\<rparr>)"
    by (rule write_back_loop) simp_all
  show ?thesis
    unfolding blender_delete_pose_def get_poses_def Let_def rm pop
    using wb by (simp add: enum_from_def)
qed

lemma blenders_loop_all:
  "\<forall>(n, b) \<in> set bs. f b = (None, g b) \<Longrightarrow>
   blenders_loop f bs = (None, map (\<lambda>(n, b). (n, g b)) bs)"
  by (induction bs) auto

lemma on_pose_blenders_all:
  assumes "poseBlenders s \<noteq> Some []"
    and "\<forall>(n, b) \<in> set (solver_blenders s). f b = (None, g b)"
  shows "on_pose_blenders f s =
           (None, s\<lparr>poseBlenders := map_option (map (\<lambda>(n, b). (n, g b))) (poseBlenders s)\<rparr>)"
proof (cases "poseBlenders s")
  case None
  then show ?thesis by (simp add: on_pose_blenders_def)
next
  case (Some bs)
  with assms(1) obtain p ps where bs: "bs = p # ps" by (cases bs) auto
  from assms(2) Some have "\<forall>(n, b) \<in> set bs. f b = (None, g b)"
    by (simp add: solver_blenders_def)
  from blenders_loop_all[OF this] Some bs show ?thesis
    by (simp add: on_pose_blenders_def)
qed

lemma map_of_setElement_same [simp]: "map_of (setElement i v m) i = Some v"
  by (induction m) auto

lemma setElement_twice [simp]: "setElement i w (setElement i v m) = setElement i w m"
  by (induction m) auto

lemma upd_target_twice: "upd_target j g (upd_target j f st) = upd_target j (g \<circ> f) st"
  by (simp add: upd_target_def element_at_def)

lemma set_target_value_upd:
  "set_target_value j di m = upd_target j (\<lambda>t. t\<lparr>targetValues := setElement di m (targetValues t)\<rparr>)"
  by (simp add: set_target_value_def upd_target_def fun_eq_iff Let_def)

lemma set_target_controller_upd:
  "set_target_controller j ci m =
     upd_target j (\<lambda>t. t\<lparr>targetControllers := setElement ci m (targetControllers t)\<rparr>)"
  by (simp add: set_target_controller_def upd_target_def fun_eq_iff Let_def)

lemma set_target_name_upd: "set_target_name j n = upd_target j (\<lambda>t. t\<lparr>targetName := n\<rparr>)"
  by (simp add: set_target_name_def upd_target_def fun_eq_iff Let_def)

lemma set_target_enable_upd: "set_target_enable j v = upd_target j (\<lambda>t. t\<lparr>targetEnable := v\<rparr>)"
  by (simp add: set_target_enable_def upd_target_def fun_eq_iff Let_def)

lemma fold_setElement_enum:
  "length pre = a \<Longrightarrow>
   fold (\<lambda>(di, m). setElement di m) (enum_from a ds) (enum_from 0 pre) = enum_from 0 (pre @ ds)"
proof (induction ds arbitrary: a pre)
  case Nil
  then show ?case by simp
next
  case (Cons d ds)
  have "setElement (int a) d (enum_from 0 pre) = enum_from 0 (pre @ [d])"
    using setElement_enum_end[of 0 pre d] Cons.prems by simp
  moreover have "length (pre @ [d]) = Suc a" using Cons.prems by simp
  ultimately show ?case using Cons.IH[of "pre @ [d]" "Suc a"] by simp
qed

lemma fold_upd_values:
  "ds \<noteq> [] \<Longrightarrow>
   fold (\<lambda>(di, m). set_target_value j di m) (enum_from a ds) st =
   upd_target j (\<lambda>t. t\<lparr>targetValues := fold (\<lambda>(di, m). setElement di m) (enum_from a ds) (targetValues t)\<rparr>) st"
proof (induction ds arbitrary: a st)
  case Nil
  then show ?case by simp
next
  case (Cons d ds)
  show ?case
  proof (cases "ds = []")
    case True
    then show ?thesis by (simp add: set_target_value_upd)
  next
    case False
    from Cons.IH[OF False] show ?thesis
      by (simp add: set_target_value_upd upd_target_twice comp_def)
  qed
qed

lemma fold_upd_controllers:
  "cs \<noteq> [] \<Longrightarrow>
   fold (\<lambda>(ci, m). set_target_controller j ci m) (enum_from a cs) st =
   upd_target j (\<lambda>t. t\<lparr>targetControllers :=
                        fold (\<lambda>(ci, m). setElement ci m) (enum_from a cs) (targetControllers t)\<rparr>) st"
proof (induction cs arbitrary: a st)
  case Nil
  then show ?case by simp
next
  case (Cons d ds)
  show ?case
  proof (cases "ds = []")
    case True
    then show ?thesis by (simp add: set_target_controller_upd)
  next
    case False
    from Cons.IH[OF False] show ?thesis
      by (simp add: set_target_controller_upd upd_target_twice comp_def)
  qed
qed

lemma upd_target_poseBlenders:
  "upd_target j f (st\<lparr>poseBlenders := pb\<rparr>) = (upd_target j f st)\<lparr>poseBlenders := pb\<rparr>"
  by (simp add: upd_target_def)

lemma upd_target_fields [simp]:
  "poseBlenders (upd_target j f st) = poseBlenders st"
  "inputs (upd_target j f st) = inputs st"
  "inputsControllers (upd_target j f st) = inputsControllers st"
  by (simp_all add: upd_target_def)

lemma upd_target_new:
  assumes "dense (targets st)"
  shows "upd_target (int (length (targets st))) f st =
           st\<lparr>targets := targets st @ [(int (length (targets st)), f new_target)]\<rparr>"
proof -
  let ?us = "map snd (targets st)"
  have t: "targets st = enum_from 0 ?us" using dense_enum[OF assms] .
  have "map_of (targets st) (int (length (targets st))) = None"
    using map_of_enum_out[of "int (length ?us)" 0 ?us] t by simp
  moreover have "setElement (int (length (targets st))) (f new_target) (targets st) =
        targets st @ [(int (length (targets st)), f new_target)]"
    using setElement_enum_end[of 0 ?us "f new_target"] t by (simp add: enum_from_append)
  ultimately show ?thesis by (simp add: upd_target_def element_at_def)
qed

lemma add_pose_appends:
  assumes inv: "pose_invariants st"
    and new: "pose_name \<notin> set (map (targetName \<circ> snd) (targets st))"
    and ds: "length ds = num_drivers st"
    and cs: "length cs = num_controllers st"
    and dm: "\<forall>(n, b) \<in> set (solver_blenders st). \<exists>x m. map_of dm (drivenTransform b) = Some (x # m)"
  shows "add_pose tr st pose_name None (Some ds) (Some cs) (Some dm) en =
      (None,
       st\<lparr>targets := targets st @
              [(int (num_poses st),
                \<lparr>targetName = pose_name, targetValues = enum_from 0 ds,
                 targetControllers = enum_from 0 cs, targetEnable = en\<rparr>)],
           poseBlenders :=
             map_option
               (map (\<lambda>(n, b). (n, b\<lparr>blender_poses :=
                       setElement (int (num_poses st)) (the (map_of dm (drivenTransform b)))
                         (blender_poses b)\<rparr>)))
               (poseBlenders st)\<rparr>)"
proof -
  let ?j = "int (num_poses st)"
  let ?g = "\<lambda>b. b\<lparr>blender_poses :=
                 setElement ?j (the (map_of dm (drivenTransform b))) (blender_poses b)\<rparr>"
  let ?f = "\<lambda>b. case map_of dm (drivenTransform b) of
                  Some (x # m) \<Rightarrow> outcome b (set_pose tr b ?j pose_name (Some (x # m)))
                | _ \<Rightarrow> outcome b (blender_add_pose_from_current tr b pose_name ?j)"
  from inv have nd: "num_drivers st \<noteq> 0" and dense: "dense (targets st)"
    and pb: "poseBlenders st \<noteq> Some []"
    by (auto simp: pose_invariants_def)
  have hp: "has_pose st pose_name = Inr False"
    using has_pose_readable[OF inv] new by simp
  have dsne: "ds \<noteq> []" using ds nd by auto
  have vals: "fold (\<lambda>(driver_index, matrix). set_target_value ?j driver_index matrix)
                (enumerate_int ds) st =
              upd_target ?j (\<lambda>t. t\<lparr>targetValues :=
                 fold (\<lambda>(di, m). setElement di m) (enum_from 0 ds) (targetValues t)\<rparr>) st"
    using fold_upd_values[OF dsne, of ?j 0 st] by (simp add: enumerate_int_enum)
  let ?V = "\<lambda>t. t\<lparr>targetValues :=
                 fold (\<lambda>(di, m). setElement di m) (enum_from 0 ds) (targetValues t)\<rparr>"
  let ?C = "\<lambda>t. t\<lparr>targetControllers :=
                 fold (\<lambda>(ci, m). setElement ci m) (enum_from 0 cs) (targetControllers t)\<rparr>"
  have ctrls: "fold (\<lambda>(controller_index, matrix). set_target_controller ?j controller_index matrix)
                (enumerate_int cs) (upd_target ?j ?V st) = upd_target ?j (?C \<circ> ?V) st"
  proof (cases "cs = []")
    case True
    then show ?thesis by (simp add: enumerate_int_enum comp_def)
  next
    case False
    from fold_upd_controllers[OF False, of ?j 0 "upd_target ?j ?V st"] show ?thesis
      by (simp add: enumerate_int_enum upd_target_twice)
  qed
  have fb: "\<forall>(n, b) \<in> set (solver_blenders (upd_target ?j (?C \<circ> ?V) st)). ?f b = (None, ?g b)"
  proof -
    have "?f b = (None, ?g b)" if "(n, b) \<in> set (solver_blenders st)" for n b
    proof -
      from dm that obtain x m where "map_of dm (drivenTransform b) = Some (x # m)" by auto
      then show ?thesis by (simp add: outcome_def set_pose_given)
    qed
    then show ?thesis by (auto simp: solver_blenders_def)
  qed
  have pb': "poseBlenders (upd_target ?j (?C \<circ> ?V) st) \<noteq> Some []" using pb by simp
  have blend: "on_pose_blenders ?f (upd_target ?j (?C \<circ> ?V) st) =
      (None, (upd_target ?j (?C \<circ> ?V) st)\<lparr>poseBlenders :=
                map_option (map (\<lambda>(n, b). (n, ?g b))) (poseBlenders st)\<rparr>)"
    using on_pose_blenders_all[OF pb' fb] by simp
  let ?N = "\<lambda>t. t\<lparr>targetName := pose_name\<rparr>"
  let ?E = "\<lambda>t. t\<lparr>targetEnable := en\<rparr>"
  have final: "set_target_enable ?j en (set_target_name ?j pose_name
                 ((upd_target ?j (?C \<circ> ?V) st)\<lparr>poseBlenders :=
                     map_option (map (\<lambda>(n, b). (n, ?g b))) (poseBlenders st)\<rparr>)) =
               (upd_target ?j (?E \<circ> ?N \<circ> ?C \<circ> ?V) st)\<lparr>poseBlenders :=
                     map_option (map (\<lambda>(n, b). (n, ?g b))) (poseBlenders st)\<rparr>"
    by (simp add: set_target_enable_upd set_target_name_upd upd_target_poseBlenders
        upd_target_twice comp_def)
  have newt: "(?E \<circ> ?N \<circ> ?C \<circ> ?V) new_target =
       \<lparr>targetName = pose_name, targetValues = enum_from 0 ds,
        targetControllers = enum_from 0 cs, targetEnable = en\<rparr>"
    using fold_setElement_enum[of "[]" 0 ds] fold_setElement_enum[of "[]" 0 cs]
    by (simp add: new_target_def)
  have app: "upd_target ?j (?E \<circ> ?N \<circ> ?C \<circ> ?V) st =
       st\<lparr>targets := targets st @ [(?j, \<lparr>targetName = pose_name, targetValues = enum_from 0 ds,
        targetControllers = enum_from 0 cs, targetEnable = en\<rparr>)]\<rparr>"
    using upd_target_new[OF dense, of "?E \<circ> ?N \<circ> ?C \<circ> ?V"] newt
    by (simp add: num_poses_def)
  have checks: "\<not> (cs \<noteq> [] \<and> length cs \<noteq> num_controllers st)"
       "\<not> (num_controllers st \<noteq> 0 \<and> (Some cs = None \<or> Some cs = Some []))"
    using cs by auto
  show ?thesis
    unfolding add_pose_def
    using nd hp ds checks
    by (simp add: Let_def vals ctrls blend final app)
qed

lemma add_pose_with:
  assumes inv: "pose_invariants st"
    and new: "pose_name \<notin> set (map (targetName \<circ> snd) (targets st))"
    and ds: "length ds = num_drivers st"
    and cs: "length cs = num_controllers st"
    and fb: "\<forall>(n, b) \<in> set (solver_blenders st).
               (case map_of dm (drivenTransform b) of
                  Some (x # m) \<Rightarrow> outcome b (set_pose tr b (int (num_poses st)) pose_name (Some (x # m)))
                | _ \<Rightarrow> outcome b (blender_add_pose_from_current tr b pose_name (int (num_poses st))))
               = (None, g b)"
  shows "add_pose tr st pose_name drv (Some ds) (Some cs) (Some dm) en =
      (None,
       st\<lparr>targets := targets st @
              [(int (num_poses st),
                \<lparr>targetName = pose_name, targetValues = enum_from 0 ds,
                 targetControllers = enum_from 0 cs, targetEnable = en\<rparr>)],
           poseBlenders := map_option (map (\<lambda>(n, b). (n, g b))) (poseBlenders st)\<rparr>)"
proof -
  let ?j = "int (num_poses st)"
  let ?f = "\<lambda>b. case map_of dm (drivenTransform b) of
                  Some (x # m) \<Rightarrow> outcome b (set_pose tr b ?j pose_name (Some (x # m)))
                | _ \<Rightarrow> outcome b (blender_add_pose_from_current tr b pose_name ?j)"
  from inv have nd: "num_drivers st \<noteq> 0" and dense: "dense (targets st)"
    and pb: "poseBlenders st \<noteq> Some []"
    by (auto simp: pose_invariants_def)
  have hp: "has_pose st pose_name = Inr False"
    using has_pose_readable[OF inv] new by simp
  have dsne: "ds \<noteq> []" using ds nd by auto
  have vals: "fold (\<lambda>(driver_index, matrix). set_target_value ?j driver_index matrix)
                (enumerate_int ds) st =
              upd_target ?j (\<lambda>t. t\<lparr>targetValues :=
                 fold (\<lambda>(di, m). setElement di m) (enum_from 0 ds) (targetValues t)\<rparr>) st"
    using fold_upd_values[OF dsne, of ?j 0 st] by (simp add: enumerate_int_enum)
  let ?V = "\<lambda>t. t\<lparr>targetValues :=
                 fold (\<lambda>(di, m). setElement di m) (enum_from 0 ds) (targetValues t)\<rparr>"
  let ?C = "\<lambda>t. t\<lparr>targetControllers :=
                 fold (\<lambda>(ci, m). setElement ci m) (enum_from 0 cs) (targetControllers t)\<rparr>"
  have ctrls: "fold (\<lambda>(controller_index, matrix). set_target_controller ?j controller_index matrix)
                (enumerate_int cs) (upd_target ?j ?V st) = upd_target ?j (?C \<circ> ?V) st"
  proof (cases "cs = []")
    case True
    then show ?thesis by (simp add: enumerate_int_enum comp_def)
  next
    case False
    from fold_upd_controllers[OF False, of ?j 0 "upd_target ?j ?V st"] show ?thesis
      by (simp add: enumerate_int_enum upd_target_twice)
  qed
  have fb': "\<forall>(n, b) \<in> set (solver_blenders (upd_target ?j (?C \<circ> ?V) st)). ?f b = (None, g b)"
    using fb by (simp add: solver_blenders_def)
  have pb': "poseBlenders (upd_target ?j (?C \<circ> ?V) st) \<noteq> Some []" using pb by simp
  have blend: "on_pose_blenders ?f (upd_target ?j (?C \<circ> ?V) st) =
      (None, (upd_target ?j (?C \<circ> ?V) st)\<lparr>poseBlenders :=
                map_option (map (\<lambda>(n, b). (n, g b))) (poseBlenders st)\<rparr>)"
    using on_pose_blenders_all[OF pb' fb'] by simp
  let ?N = "\<lambda>t. t\<lparr>targetName := pose_name\<rparr>"
  let ?E = "\<lambda>t. t\<lparr>targetEnable := en\<rparr>"
  have final: "set_target_enable ?j en (set_target_name ?j pose_name
                 ((upd_target ?j (?C \<circ> ?V) st)\<lparr>poseBlenders :=
                     map_option (map (\<lambda>(n, b). (n, g b))) (poseBlenders st)\<rparr>)) =
               (upd_target ?j (?E \<circ> ?N \<circ> ?C \<circ> ?V) st)\<lparr>poseBlenders :=
                     map_option (map (\<lambda>(n, b). (n, g b))) (poseBlenders st)\<rparr>"
    by (simp add: set_target_enable_upd set_target_name_upd upd_target_poseBlenders
        upd_target_twice comp_def)
  have newt: "(?E \<circ> ?N \<circ> ?C \<circ> ?V) new_target =
       \<lparr>targetName = pose_name, targetValues = enum_from 0 ds,
        targetControllers = enum_from 0 cs, targetEnable = en\<rparr>"
    using fold_setElement_enum[of "[]" 0 ds] fold_setElement_enum[of "[]" 0 cs]
    by (simp add: new_target_def)
  have app: "upd_target ?j (?E \<circ> ?N \<circ> ?C \<circ> ?V) st =
       st\<lparr>targets := targets st @ [(?j, \<lparr>targetName = pose_name, targetValues = enum_from 0 ds,
        targetControllers = enum_from 0 cs, targetEnable = en\<rparr>)]\<rparr>"
    using upd_target_new[OF dense, of "?E \<circ> ?N \<circ> ?C \<circ> ?V"] newt
    by (simp add: num_poses_def)
  have checks: "\<not> (cs \<noteq> [] \<and> length cs \<noteq> num_controllers st)"
       "\<not> (num_controllers st \<noteq> 0 \<and> (Some cs = None \<or> Some cs = Some []))"
    using cs by auto
  show ?thesis
    unfolding add_pose_def
    using nd hp ds checks
    by (simp add: matrices_given Let_def vals ctrls blend final app)
qed

lemma pose_invariants_alt:
  "pose_invariants s \<longleftrightarrow>
     (num_drivers s \<noteq> 0 \<and> dense (targets s) \<and>
      distinct (map targetName (map snd (targets s))) \<and>
      (\<forall>t \<in> set (map snd (targets s)). target_ok s t) \<and> poseBlenders s \<noteq> Some [])"
  by (auto simp: pose_invariants_def target_ok_def comp_def)

lemma target_rebuilt:
  "target_ok s t \<Longrightarrow>
   \<lparr>targetName = targetName t, targetValues = enum_from 0 (map snd (targetValues t)),
    targetControllers = enum_from 0 (map snd (targetControllers t)),
    targetEnable = targetEnable t\<rparr> = t"
  using dense_enum[of "targetValues t"] dense_enum[of "targetControllers t"]
  by (simp add: target_ok_def)

lemma readd_loop:
  fixes s :: solver_node and pb' :: "(string \<times> blender_node) list option"
  defines "S \<equiv> \<lambda>us. s\<lparr>targets := enum_from 0 us, poseBlenders := pb'\<rparr>"
  assumes nd: "num_drivers s \<noteq> 0" and pb: "pb' \<noteq> Some []"
    and names: "distinct (map targetName (us @ map snd rest))"
    and ok: "\<forall>t \<in> set (us @ map snd rest). target_ok s t"
    and bl: "\<forall>pos < length rest. \<forall>(n, b) \<in> set (solver_blenders (S [])).
               \<exists>x m. map_of (driven_data s (fst (rest ! pos))) (drivenTransform b) = Some (x # m) \<and>
                     setElement (int (length us + pos)) (x # m) (blender_poses b) = blender_poses b"
  shows "for_loop
           (\<lambda>(pose_name, pose_data) st.
              add_pose tr st pose_name None (Some (p_drivers pose_data))
                (Some (p_controllers pose_data)) (Some (p_driven pose_data))
                (p_target_enable pose_data))
           (map (\<lambda>e. (targetName (snd e), pose_of s e)) rest) (S us)
         = (None, S (us @ map snd rest))"
  using names ok bl
proof (induction rest arbitrary: us)
  case Nil
  then show ?case by simp
next
  case (Cons e rest)
  obtain i t where e: "e = (i, t)" by (cases e)
  have inv: "pose_invariants (S us)"
    using nd pb Cons.prems(1,2)
    by (auto simp: pose_invariants_alt S_def num_drivers_def num_controllers_def target_ok_def)
  have "map (targetName \<circ> snd) (targets (S us)) = map targetName us"
    by (simp add: S_def flip: map_map)
  then have new: "targetName t \<notin> set (map (targetName \<circ> snd) (targets (S us)))"
    using Cons.prems(1) by (auto simp: e)
  have tok: "target_ok s t" using Cons.prems(2) by (simp add: e)
  have ds: "length (p_drivers (pose_of s e)) = num_drivers (S us)"
    and cs: "length (p_controllers (pose_of s e)) = num_controllers (S us)"
    using tok by (simp_all add: pose_of_def e target_ok_def S_def num_drivers_def num_controllers_def)
  have sb: "solver_blenders (S us) = solver_blenders (S [])"
    by (simp add: S_def solver_blenders_def)
  have bl0: "\<forall>(n, b) \<in> set (solver_blenders (S us)).
               \<exists>x m. map_of (driven_data s i) (drivenTransform b) = Some (x # m) \<and>
                     setElement (int (length us)) (x # m) (blender_poses b) = blender_poses b"
    using Cons.prems(3)[rule_format, of 0] by (simp add: e sb)
  then have dm: "\<forall>(n, b) \<in> set (solver_blenders (S us)).
               \<exists>x m. map_of (p_driven (pose_of s e)) (drivenTransform b) = Some (x # m)"
    by (fastforce simp: pose_of_def e)
  have np: "num_poses (S us) = length us" by (simp add: S_def num_poses_def)
  have same: "map (\<lambda>(n, b). (n, b\<lparr>blender_poses :=
                       setElement (int (length us)) (the (map_of (driven_data s i) (drivenTransform b)))
                         (blender_poses b)\<rparr>)) bs = bs"
    if "pb' = Some bs" for bs
  proof -
    have "\<forall>(n, b) \<in> set bs.
               \<exists>x m. map_of (driven_data s i) (drivenTransform b) = Some (x # m) \<and>
                     setElement (int (length us)) (x # m) (blender_poses b) = blender_poses b"
      using bl0 that by (simp add: S_def solver_blenders_def)
    then have "\<forall>p \<in> set bs. (\<lambda>(n, b). (n, b\<lparr>blender_poses :=
                       setElement (int (length us)) (the (map_of (driven_data s i) (drivenTransform b)))
                         (blender_poses b)\<rparr>)) p = p"
      by fastforce
    then show ?thesis by (simp add: map_idI)
  qed
  have step: "add_pose tr (S us) (targetName t) None (Some (p_drivers (pose_of s e)))
                (Some (p_controllers (pose_of s e))) (Some (p_driven (pose_of s e)))
                (p_target_enable (pose_of s e)) = (None, S (us @ [t]))"
    unfolding add_pose_appends[OF inv new ds cs dm] np
    using target_rebuilt[OF tok] same
    by (cases pb') (simp_all add: S_def pose_of_def e enum_from_append)
  have ih: "for_loop
           (\<lambda>(pose_name, pose_data) st.
              add_pose tr st pose_name None (Some (p_drivers pose_data))
                (Some (p_controllers pose_data)) (Some (p_driven pose_data))
                (p_target_enable pose_data))
           (map (\<lambda>e. (targetName (snd e), pose_of s e)) rest) (S (us @ [t]))
         = (None, S ((us @ [t]) @ map snd rest))"
  proof (rule Cons.IH)
    show "distinct (map targetName ((us @ [t]) @ map snd rest))"
      using Cons.prems(1) by (simp add: e)
    show "\<forall>t \<in> set ((us @ [t]) @ map snd rest). target_ok s t"
      using Cons.prems(2) by (simp add: e)
    show "\<forall>pos < length rest. \<forall>(n, b) \<in> set (solver_blenders (S [])).
               \<exists>x m. map_of (driven_data s (fst (rest ! pos))) (drivenTransform b) = Some (x # m) \<and>
                     setElement (int (length (us @ [t]) + pos)) (x # m) (blender_poses b) = blender_poses b"
    proof (intro allI impI)
      fix pos assume "pos < length rest"
      then have "Suc pos < length (e # rest)" by simp
      from Cons.prems(3)[rule_format, OF this]
      show "\<forall>(n, b) \<in> set (solver_blenders (S [])).
               \<exists>x m. map_of (driven_data s (fst (rest ! pos))) (drivenTransform b) = Some (x # m) \<and>
                     setElement (int (length (us @ [t]) + pos)) (x # m) (blender_poses b) = blender_poses b"
        by (simp add: add.commute add.left_commute)
    qed
  qed
  show ?case
    using step ih by (simp add: e)
qed

lemma length_remove_at: "k < length xs \<Longrightarrow> length (remove_at k xs) = length xs - 1"
  by (simp add: remove_at_def)

lemma remove_at_nth:
  "k < length xs \<Longrightarrow> pos < length xs - 1 \<Longrightarrow>
   remove_at k xs ! pos = xs ! (if pos < k then pos else Suc pos)"
  by (auto simp: remove_at_def nth_append min_def)

lemma map_remove_at: "map f (remove_at k xs) = remove_at k (map f xs)"
  by (simp add: remove_at_def take_map drop_map)

lemma filter_distinct_remove:
  "distinct (map f xs) \<Longrightarrow> k < length xs \<Longrightarrow>
   filter (\<lambda>x. f x \<noteq> f (xs ! k)) xs = remove_at k xs"
proof (induction xs arbitrary: k)
  case Nil
  then show ?case by simp
next
  case (Cons x xs)
  show ?case
  proof (cases k)
    case 0
    from Cons.prems have "f x \<notin> f ` set xs" by simp
    then have "\<forall>y \<in> set xs. f y \<noteq> f x" by (metis imageI)
    then have "filter (\<lambda>y. f y \<noteq> f x) xs = xs" by (simp add: filter_id_conv)
    with 0 show ?thesis by (simp add: remove_at_def)
  next
    case (Suc j)
    with Cons.prems have j: "j < length xs" and d: "distinct (map f xs)" by auto
    from Cons.prems have "f x \<notin> f ` set xs" by simp
    with j have "f x \<noteq> f (xs ! j)" by (metis imageI nth_mem)
    with Cons.IH[OF d j] Suc show ?thesis by (simp add: remove_at_def)
  qed
qed

lemma enum_from_nth: "i < length xs \<Longrightarrow> enum_from a xs ! i = (int (a + i), xs ! i)"
  by (simp add: enum_from_def)

lemma get_pose_dense:
  "dense (blender_poses b) \<Longrightarrow> i < length (blender_poses b) \<Longrightarrow>
   get_pose b (int i) = map snd (blender_poses b) ! i"
  using map_of_enum[of i "map snd (blender_poses b)" 0] dense_enum[of "blender_poses b"]
  by (simp add: get_pose_def element_at_def)

lemma map_of_fold_dict_set:
  "distinct (map (drivenTransform \<circ> snd) bs) \<Longrightarrow> (n, b) \<in> set bs \<Longrightarrow>
   map_of (fold (\<lambda>(n, b) d. dict_set (drivenTransform b) (v b) d) bs acc) (drivenTransform b)
     = Some (v b)"
proof (induction bs arbitrary: acc)
  case Nil
  then show ?case by simp
next
  case (Cons p bs)
  obtain n' b' where p: "p = (n', b')" by (cases p)
  have keep: "map_of (fold (\<lambda>(n, b) d. dict_set (drivenTransform b) (v b) d) bs acc') k = map_of acc' k"
    if "k \<notin> set (map (drivenTransform \<circ> snd) bs)" for acc' k
    using that by (induction bs arbitrary: acc') (auto simp: map_of_dict_set)
  show ?case
  proof (cases "(n, b) \<in> set bs")
    case True
    with Cons.prems Cons.IH show ?thesis by (simp add: p)
  next
    case False
    with Cons.prems have eq: "p = (n, b)" and nk: "drivenTransform b \<notin> set (map (drivenTransform \<circ> snd) bs)"
      by force+
    show ?thesis using keep[OF nk] eq by (simp add: map_of_dict_set)
  qed
qed

lemma map_of_driven_data:
  "distinct (map (drivenTransform \<circ> snd) (solver_blenders s)) \<Longrightarrow>
   (n, b) \<in> set (solver_blenders s) \<Longrightarrow>
   map_of (driven_data s i) (drivenTransform b) = Some (get_pose b i)"
  unfolding driven_data_def by (rule map_of_fold_dict_set)

lemma distinct_remove_at: "distinct xs \<Longrightarrow> distinct (remove_at k xs)"
proof -
  assume d: "distinct xs"
  then have "distinct (take k xs @ drop k xs)" by simp
  then have dis: "set (take k xs) \<inter> set (drop k xs) = {}" by (simp only: distinct_append)
  have "set (drop (Suc k) xs) \<subseteq> set (drop k xs)"
    by (rule set_drop_subset_set_drop) simp
  with dis have "set (take k xs) \<inter> set (drop (Suc k) xs) = {}" by blast
  with d show ?thesis by (simp add: remove_at_def)
qed

lemma delete_pose_state:
  assumes inv: "pose_invariants s" and lock: "bindings_in_lockstep s"
    and k: "k < length (targets s)" and name: "targetName (snd (targets s ! k)) = pose_name"
  shows "delete_pose tr s pose_name =
           (None, s\<lparr>targets := enumerate_int (remove_at k (map snd (targets s))),
                    poseBlenders :=
                      map_option (map (\<lambda>(n, b). (n, drop_recorded k b))) (poseBlenders s)\<rparr>)"
proof -
  let ?T = "targets s"
  let ?ts = "map snd ?T"
  let ?mk = "\<lambda>e. (targetName (snd e), pose_of s e)"
  let ?pb' = "map_option (map (\<lambda>(n, b). (n, drop_recorded k b))) (poseBlenders s)"
  from inv have nd: "num_drivers s \<noteq> 0" and dense: "dense ?T"
    and dn: "distinct (map (targetName \<circ> snd) ?T)" and pb: "poseBlenders s \<noteq> Some []"
    and oks: "\<forall>t \<in> set ?ts. target_ok s t"
    by (auto simp: pose_invariants_alt)
  have T: "?T = enum_from 0 ?ts" using dense_enum[OF dense] .
  have Tk: "?T ! k = (int k, ?ts ! k)"
    using enum_from_nth[of k ?ts 0] k T by simp
  have mem: "(int k, ?ts ! k) \<in> set ?T" using k Tk by (metis nth_mem)
  have nm: "targetName (?ts ! k) = pose_name" using name k by simp
  have hp: "has_pose s pose_name = Inr True"
    using has_pose_readable[OF inv, of pose_name] mem nm by force
  have ps: "poses s = Inr (map ?mk ?T)" using poses_readable[OF inv] .
  have idx: "pose_index s pose_name = int k"
    using pose_index_loop_distinct[OF dn mem] nm by (simp add: pose_index_def)
  have rm: "fold removeMultiInstance (rev (map int [0 ..< length (map ?mk ?T)])) ?T = []"
    using remove_all_enum[of ?ts] T by simp
  have filt: "filter (\<lambda>(n, pd). n \<noteq> pose_name) (map ?mk ?T) = map ?mk (remove_at k ?T)"
  proof -
    have "filter (\<lambda>(n, pd). n \<noteq> pose_name) (map ?mk ?T) =
          map ?mk (filter (\<lambda>e. (targetName \<circ> snd) e \<noteq> (targetName \<circ> snd) (?T ! k)) ?T)"
      using name by (simp add: filter_map comp_def)
    then show ?thesis using filter_distinct_remove[OF dn k] by simp
  qed
  let ?s1 = "s\<lparr>targets := []\<rparr>"
  have blend: "on_pose_blenders (\<lambda>b. blender_delete_pose tr b (int k) []) ?s1 =
                 (None, ?s1\<lparr>poseBlenders := ?pb'\<rparr>)"
  proof -
    have "\<forall>(n, b) \<in> set (solver_blenders ?s1).
            blender_delete_pose tr b (int k) [] = (None, drop_recorded k b)"
      using lock k blender_delete_pose_dense
      by (auto simp: bindings_in_lockstep_def solver_blenders_def num_poses_def
          drop_recorded_def enumerate_int_enum split: option.splits)
    moreover have "poseBlenders ?s1 \<noteq> Some []" using pb by simp
    ultimately show ?thesis using on_pose_blenders_all[of ?s1] by simp
  qed
  have pb': "?pb' \<noteq> Some []" using pb by (cases "poseBlenders s") auto
  have names: "distinct (map targetName ([] @ map snd (remove_at k ?T)))"
  proof -
    have "distinct (map targetName ?ts)" using dn by (simp add: comp_def)
    then have "distinct (remove_at k (map targetName ?ts))"
      by (rule distinct_remove_at)
    then show ?thesis by (simp add: map_remove_at)
  qed
  have oks': "\<forall>t \<in> set ([] @ map snd (remove_at k ?T)). target_ok s t"
  proof -
    have "set (remove_at k ?ts) \<subseteq> set ?ts"
      unfolding remove_at_def using set_take_subset[of k ?ts] set_drop_subset[of "Suc k" ?ts] by auto
    then show ?thesis using oks by (auto simp: map_remove_at)
  qed
  let ?S = "\<lambda>us. s\<lparr>targets := enum_from 0 us, poseBlenders := ?pb'\<rparr>"
  have bl: "\<forall>pos < length (remove_at k ?T). \<forall>(n, b) \<in> set (solver_blenders (?S [])).
               \<exists>x m. map_of (driven_data s (fst (remove_at k ?T ! pos))) (drivenTransform b) = Some (x # m) \<and>
                     setElement (int (length ([] :: target list) + pos)) (x # m) (blender_poses b) = blender_poses b"
  proof (intro allI impI ballI)
    fix pos p
    assume pos: "pos < length (remove_at k ?T)" and p: "p \<in> set (solver_blenders (?S []))"
    obtain n b' where pe: "p = (n, b')" by (cases p)
    from p pe obtain b where b: "(n, b) \<in> set (solver_blenders s)" and b': "b' = drop_recorded k b"
      by (auto simp: solver_blenders_def split: option.splits)
    let ?i = "if pos < k then pos else Suc pos"
    let ?ms = "map snd (blender_poses b)"
    from pos k have posn: "pos < length ?T - 1" by (simp add: length_remove_at)
    then have i: "?i < length ?T" using k by auto
    from lock b have db: "dense (blender_poses b)" and lb: "length (blender_poses b) = length ?T"
      and ne: "\<forall>(j, m) \<in> set (blender_poses b). m \<noteq> []"
      and dd: "distinct (map (drivenTransform \<circ> snd) (solver_blenders s))"
      by (auto simp: bindings_in_lockstep_def num_poses_def)
    have el: "remove_at k ?T ! pos = ?T ! ?i" using remove_at_nth[OF k posn] .
    have Ti: "\<And>j. j < length ?T \<Longrightarrow> fst (?T ! j) = int j"
    proof -
      fix j assume "j < length ?T"
      then have "enum_from 0 ?ts ! j = (int (0 + j), ?ts ! j)"
        by (intro enum_from_nth) simp
      then show "fst (?T ! j) = int j" using T by simp
    qed
    have fst_el: "fst (remove_at k ?T ! pos) = int ?i"
      unfolding el using Ti[OF i] .
    have look: "map_of (driven_data s (int ?i)) (drivenTransform b) = Some (get_pose b (int ?i))"
      using map_of_driven_data[OF dd b] .
    have gp: "get_pose b (int ?i) = ?ms ! ?i"
      using get_pose_dense[OF db] i lb by simp
    have "?ms ! ?i \<in> set ?ms" using i lb by simp
    then have nonempty: "?ms ! ?i \<noteq> []" using ne by auto
    then obtain x m where xm: "?ms ! ?i = x # m" by (cases "?ms ! ?i") auto
    have kb: "k < length ?ms" using k lb by simp
    have posb: "pos < length ?ms - 1" using posn lb by simp
    have same: "remove_at k ?ms ! pos = ?ms ! ?i" using remove_at_nth[OF kb posb] .
    have "setElement (int (0 + pos)) (remove_at k ?ms ! pos) (enum_from 0 (remove_at k ?ms))
            = enum_from 0 (remove_at k ?ms)"
      by (rule setElement_enum_same) (use posb kb in \<open>simp add: length_remove_at\<close>)
    then have set_same: "setElement (int pos) (x # m) (blender_poses b') = blender_poses b'"
      using same xm by (simp add: b' drop_recorded_def enumerate_int_enum)
    have "drivenTransform b' = drivenTransform b" by (simp add: b' drop_recorded_def)
    then show "case p of (n, b) \<Rightarrow>
               \<exists>x m. map_of (driven_data s (fst (remove_at k ?T ! pos))) (drivenTransform b) = Some (x # m) \<and>
                     setElement (int (length ([] :: target list) + pos)) (x # m) (blender_poses b) = blender_poses b"
      using look gp xm set_same fst_el by (simp add: pe)
  qed
  have loop: "for_loop
           (\<lambda>(pose_name, pose_data) st.
              add_pose tr st pose_name None (Some (p_drivers pose_data))
                (Some (p_controllers pose_data)) (Some (p_driven pose_data))
                (p_target_enable pose_data))
           (map ?mk (remove_at k ?T)) (?S [])
         = (None, ?S ([] @ map snd (remove_at k ?T)))"
    by (rule readd_loop[OF nd pb' names oks' bl])
  show ?thesis
    unfolding delete_pose_def
    using hp ps idx rm filt blend loop
    by (simp add: Let_def map_remove_at enumerate_int_enum)
qed

lemma has_pose_index:
  assumes inv: "pose_invariants s" and hp: "has_pose s pose_name = Inr True"
  shows "\<exists>k < length (targets s). targetName (snd (targets s ! k)) = pose_name \<and>
           pose_index s pose_name = int k"
proof -
  from has_pose_readable[OF inv, of pose_name] hp
  have "pose_name \<in> set (map (targetName \<circ> snd) (targets s))" by simp
  then obtain k where k: "k < length (targets s)" and nm: "targetName (snd (targets s ! k)) = pose_name"
    by (auto simp: in_set_conv_nth)
  from inv have dense: "dense (targets s)" and dn: "distinct (map (targetName \<circ> snd) (targets s))"
    by (auto simp: pose_invariants_def)
  have "enum_from 0 (map snd (targets s)) ! k = (int (0 + k), map snd (targets s) ! k)"
    by (rule enum_from_nth) (use k in simp)
  then have Tk: "targets s ! k = (int k, snd (targets s ! k))"
    using dense_enum[OF dense] k by simp
  then have "(int k, snd (targets s ! k)) \<in> set (targets s)" using k by (metis nth_mem)
  from pose_index_loop_distinct[OF dn this] nm have "pose_index s pose_name = int k"
    by (simp add: pose_index_def)
  with k nm show ?thesis by blast
qed

lemma pose_invariants_after_delete:
  assumes inv: "pose_invariants s" and k: "k < length (targets s)"
  shows "pose_invariants (s\<lparr>targets := enumerate_int (remove_at k (map snd (targets s))),
                            poseBlenders :=
                              map_option (map (\<lambda>(n, b). (n, drop_recorded k b))) (poseBlenders s)\<rparr>)"
proof -
  let ?ts = "map snd (targets s)"
  from inv have nd: "num_drivers s \<noteq> 0"
    and dn: "distinct (map targetName ?ts)" and pb: "poseBlenders s \<noteq> Some []"
    and oks: "\<forall>t \<in> set ?ts. target_ok s t"
    by (auto simp: pose_invariants_alt)
  have sub: "set (remove_at k ?ts) \<subseteq> set ?ts"
    unfolding remove_at_def using set_take_subset[of k ?ts] set_drop_subset[of "Suc k" ?ts] by auto
  have d: "distinct (map targetName (remove_at k ?ts))"
    using distinct_remove_at[OF dn, of k] by (simp add: map_remove_at)
  have pb': "map_option (map (\<lambda>(n, b). (n, drop_recorded k b))) (poseBlenders s) \<noteq> Some []"
    using pb by (cases "poseBlenders s") auto
  show ?thesis
    unfolding pose_invariants_alt
    using nd d pb' sub oks
    by (auto simp: enumerate_int_enum num_drivers_def num_controllers_def target_ok_def)
qed

lemma example_invariants: "pose_invariants example_solver \<and> bindings_in_lockstep example_solver"
  by (simp add: pose_invariants_def bindings_in_lockstep_def example_solver_def dense_def
      num_drivers_def num_controllers_def num_poses_def solver_blenders_def example_blender_def
      identity_matrix_def quarter_turn_z_def upt_rec)

lemma set_remove_at: "set (remove_at k xs) \<subseteq> set xs"
  by (auto simp: remove_at_def dest: in_set_takeD in_set_dropD)

lemma set_enum_from: "(i, x) \<in> set (enum_from a xs) \<Longrightarrow> x \<in> set xs"
  by (auto simp: enum_from_def dest: set_zip_rightD)

lemma drop_recorded_ok:
  assumes d: "dense (blender_poses b)" and l: "length (blender_poses b) = n"
    and ne: "\<forall>(i, m) \<in> set (blender_poses b). m \<noteq> []" and k: "k < n"
  shows "dense (blender_poses (drop_recorded k b)) \<and>
         length (blender_poses (drop_recorded k b)) = n - 1 \<and>
         (\<forall>(i, m) \<in> set (blender_poses (drop_recorded k b)). m \<noteq> [])"
proof -
  let ?xs = "map snd (blender_poses b)"
  have bp: "blender_poses (drop_recorded k b) = enum_from 0 (remove_at k ?xs)"
    by (simp add: drop_recorded_def enumerate_int_enum)
  have kb: "k < length ?xs" using k l by simp
  have len: "length (remove_at k ?xs) = n - 1"
    using length_remove_at[OF kb] l by simp
  have "m \<noteq> []" if "(i, m) \<in> set (enum_from 0 (remove_at k ?xs))" for i m
  proof -
    from set_enum_from[OF that] have "m \<in> set (remove_at k ?xs)" .
    then have "m \<in> set ?xs" using set_remove_at[of k ?xs] by blast
    then obtain j where "(j, m) \<in> set (blender_poses b)" by auto
    with ne show ?thesis by blast
  qed
  then have "\<forall>(i, m) \<in> set (enum_from 0 (remove_at k ?xs)). m \<noteq> []" by blast
  then show ?thesis unfolding bp using len by simp
qed


lemma lockstep_after_delete:
  assumes lock: "bindings_in_lockstep s" and k: "k < length (targets s)"
  shows "bindings_in_lockstep
           (s\<lparr>targets := enumerate_int (remove_at k (map snd (targets s))),
              poseBlenders := map_option (map (\<lambda>(n, b). (n, drop_recorded k b))) (poseBlenders s)\<rparr>)"
proof -
  let ?s' = "s\<lparr>targets := enumerate_int (remove_at k (map snd (targets s))),
              poseBlenders := map_option (map (\<lambda>(n, b). (n, drop_recorded k b))) (poseBlenders s)\<rparr>"
  let ?bs = "solver_blenders s"
  have sb: "solver_blenders ?s' = map (\<lambda>(n, b). (n, drop_recorded k b)) ?bs"
    by (cases "poseBlenders s") (simp_all add: solver_blenders_def)
  have "drivenTransform (drop_recorded k b) = drivenTransform b" for b
    by (simp add: drop_recorded_def)
  then have dt: "map (drivenTransform \<circ> snd) (map (\<lambda>(n, b). (n, drop_recorded k b)) ?bs) =
            map (drivenTransform \<circ> snd) ?bs"
    by (induction ?bs) auto
  have kn: "k < num_poses s" using k by (simp add: num_poses_def)
  have np: "num_poses ?s' = num_poses s - 1"
    using k by (simp add: num_poses_def enumerate_int_enum length_remove_at)
  have d1: "distinct (map (drivenTransform \<circ> snd) (solver_blenders ?s'))"
    unfolding sb dt using lock unfolding bindings_in_lockstep_def by blast
  have d2: "dense (blender_poses b') \<and> length (blender_poses b') = num_poses ?s' \<and>
         (\<forall>(i, m) \<in> set (blender_poses b'). m \<noteq> [])"
    if "(n', b') \<in> set (solver_blenders ?s')" for n' b'
  proof -
    from that obtain b where b: "(n', b) \<in> set ?bs" and b': "b' = drop_recorded k b"
      unfolding sb by auto
    from lock b have "dense (blender_poses b)" "length (blender_poses b) = num_poses s"
      "\<forall>(i, m) \<in> set (blender_poses b). m \<noteq> []"
      unfolding bindings_in_lockstep_def by blast+
    from drop_recorded_ok[OF this kn] show ?thesis unfolding b' np .
  qed
  show ?thesis
    unfolding bindings_in_lockstep_def using d1 d2 by blast
qed


lemma rebound_has_pose: "has_pose rebound_solver ''raised'' = Inr True"
  by (simp add: has_pose_def poses_def rebound_solver_def example_solver_def pose_def
      pose_index_def element_at_def multiIndices_def num_drivers_def num_controllers_def
      Let_def)

text \<open>
  \<^verbatim>\<open>add_pose\<close> keeps the invariants: with a new, non-empty name, one matrix per driver
  and one per controller, on a solver whose pose blenders drive transforms of the scene,
  it returns, and the solver it leaves satisfies I1, I2, I4 and I5 with one pose more.
\<close>

lemma dense_append:
  assumes "dense m"
  shows "setElement (int (length m)) v m = m @ [(int (length m), v)] \<and>
         dense (m @ [(int (length m), v)])"
proof -
  have m: "m = enum_from 0 (map snd m)" using dense_enum[OF assms] .
  have "setElement (int (0 + length (map snd m))) v (enum_from 0 (map snd m)) =
        enum_from 0 (map snd m @ [v])"
    by (rule setElement_enum_end)
  then have "setElement (int (length m)) v m = enum_from 0 (map snd m @ [v])"
    using m by simp
  moreover have "enum_from 0 (map snd m @ [v]) = m @ [(int (length m), v)]"
    using m by (simp add: enum_from_append)
  moreover have "dense (enum_from 0 (map snd m @ [v]))" by (rule dense_enum_from)
  ultimately show ?thesis by simp
qed

lemma blender_step_shape:
  assumes "drivenTransform b = Some t" and "map_of tr t = Some M0" and "M0 \<noteq> []" and "0 \<le> j"
  shows "\<exists>M. M \<noteq> [] \<and>
           (case map_of dm (drivenTransform b) of
              Some (x # m) \<Rightarrow> outcome b (set_pose tr b j pose_name (Some (x # m)))
            | _ \<Rightarrow> outcome b (blender_add_pose_from_current tr b pose_name j))
           = (None, b\<lparr>blender_poses := setElement j M (blender_poses b)\<rparr>)"
proof (cases "map_of dm (Some t)")
  case None
  then show ?thesis using assms
    by (intro exI[of _ M0])
      (simp add: outcome_def set_pose_given blender_add_pose_from_current_def xform_query_def)
next
  case (Some M)
  show ?thesis
  proof (cases M)
    case Nil
    then show ?thesis using assms Some
      by (intro exI[of _ M0])
        (simp add: outcome_def set_pose_given blender_add_pose_from_current_def xform_query_def)
  next
    case (Cons x m)
    then show ?thesis using assms Some
      by (intro exI[of _ "x # m"]) (simp add: outcome_def set_pose_given)
  qed
qed


lemma add_pose_keeps_invariants:
  assumes inv: "pose_invariants st" and lock: "bindings_in_lockstep st"
    and bt: "bound_to_transforms tr (poseBlenders st)"
    and ne: "\<forall>(t, m) \<in> set tr. m \<noteq> []"
    and nn: "pose_name \<noteq> []"
    and new: "pose_name \<notin> set (map (targetName \<circ> snd) (targets st))"
    and ds: "length ds = num_drivers st" and cs: "length cs = num_controllers st"
  shows "\<exists>st'. add_pose tr st pose_name drv (Some ds) (Some cs) (Some dm) en = (None, st') \<and>
               num_poses st' = num_poses st + 1 \<and>
               pose_invariants st' \<and> bindings_in_lockstep st'"
proof -
  let ?n = "num_poses st"
  let ?f = "\<lambda>b. case map_of dm (drivenTransform b) of
                  Some (x # m) \<Rightarrow> outcome b (set_pose tr b (int ?n) pose_name (Some (x # m)))
                | _ \<Rightarrow> outcome b (blender_add_pose_from_current tr b pose_name (int ?n))"
  let ?g = "\<lambda>b. snd (?f b)"
  let ?T = "\<lparr>targetName = pose_name, targetValues = enum_from 0 ds,
            targetControllers = enum_from 0 cs, targetEnable = en\<rparr>"
  let ?bs = "solver_blenders st"
  let ?st' = "st\<lparr>targets := targets st @ [(int ?n, ?T)],
                 poseBlenders := map_option (map (\<lambda>(n, b). (n, ?g b))) (poseBlenders st)\<rparr>"
  have each: "?f b = (None, ?g b) \<and> drivenTransform (?g b) = drivenTransform b \<and>
              dense (blender_poses (?g b)) \<and> length (blender_poses (?g b)) = ?n + 1 \<and>
              (\<forall>(i, m) \<in> set (blender_poses (?g b)). m \<noteq> [])"
    if mem: "(n, b) \<in> set ?bs" for n b
  proof -
    from mem have "(n, b) \<in> set (case poseBlenders st of None \<Rightarrow> [] | Some bs \<Rightarrow> bs)"
      by (simp add: solver_blenders_def)
    with bt have "\<exists>t. drivenTransform b = Some t \<and> map_of tr t \<noteq> None"
      unfolding bound_to_transforms_def by blast
    then obtain t M0 where t: "drivenTransform b = Some t" and m0: "map_of tr t = Some M0" by auto
    from map_of_SomeD[OF m0] ne have m0ne: "M0 \<noteq> []" by blast
    from blender_step_shape[OF t m0 m0ne, where j = "int ?n" and dm = dm and pose_name = pose_name]
    obtain M where M: "M \<noteq> []"
      and fM: "?f b = (None, b\<lparr>blender_poses := setElement (int ?n) M (blender_poses b)\<rparr>)"
      by auto
    from lock mem have d: "dense (blender_poses b)" and l: "length (blender_poses b) = ?n"
      and bn: "\<forall>(i, m) \<in> set (blender_poses b). m \<noteq> []"
      unfolding bindings_in_lockstep_def by blast+
    from dense_append[OF d, of M] l
    have ap: "setElement (int ?n) M (blender_poses b) = blender_poses b @ [(int ?n, M)]"
      and da: "dense (blender_poses b @ [(int ?n, M)])" by simp_all
    have gb: "?g b = b\<lparr>blender_poses := blender_poses b @ [(int ?n, M)]\<rparr>"
      using fM ap by simp
    have "\<forall>(i, m) \<in> set (blender_poses b @ [(int ?n, M)]). m \<noteq> []"
      using bn M by auto
    then show ?thesis using fM gb da l by simp
  qed
  then have fb: "\<forall>(n, b) \<in> set ?bs. ?f b = (None, ?g b)" by blast
  have res: "add_pose tr st pose_name drv (Some ds) (Some cs) (Some dm) en = (None, ?st')"
    using add_pose_with[OF inv new ds cs fb] .
  have np: "num_poses ?st' = ?n + 1" by (simp add: num_poses_def)
  from inv have nd: "num_drivers st \<noteq> 0" and dense: "dense (targets st)"
    and dn: "distinct (map targetName (map snd (targets st)))"
    and ok: "\<forall>t \<in> set (map snd (targets st)). target_ok st t"
    and pb: "poseBlenders st \<noteq> Some []"
    unfolding pose_invariants_alt by blast+
  have dT: "dense (targets st @ [(int ?n, ?T)])"
    using dense_append[OF dense, of ?T] by (simp add: num_poses_def)
  have okT: "target_ok st ?T" using nn ds cs by (simp add: target_ok_def)
  have new': "pose_name \<notin> set (map targetName (map snd (targets st)))"
    using new by (simp add: comp_def)
  have tk: "target_ok ?st' t = target_ok st t" for t
    by (simp add: target_ok_def num_drivers_def num_controllers_def)
  have inv': "pose_invariants ?st'"
    unfolding pose_invariants_alt tk
    using nd dT dn ok okT new' pb
    by (cases "poseBlenders st") (auto simp: num_drivers_def)
  have sb: "solver_blenders ?st' = map (\<lambda>(n, b). (n, ?g b)) ?bs"
    by (cases "poseBlenders st") (simp_all add: solver_blenders_def)
  have dt: "map (drivenTransform \<circ> snd) (map (\<lambda>(n, b). (n, ?g b)) bs) =
            map (drivenTransform \<circ> snd) bs" if "set bs \<subseteq> set ?bs" for bs
    using that
  proof (induction bs)
    case Nil
    then show ?case by simp
  next
    case (Cons p bs)
    obtain n b where p: "p = (n, b)" by (cases p)
    with Cons.prems have "(n, b) \<in> set ?bs" by simp
    from each[OF this] have "drivenTransform (?g b) = drivenTransform b" by blast
    then show ?case using Cons p by simp
  qed
  note dtall = dt[OF subset_refl]
  have d1: "distinct (map (drivenTransform \<circ> snd) (solver_blenders ?st'))"
    unfolding sb dtall using lock unfolding bindings_in_lockstep_def by blast
  have d2: "dense (blender_poses b') \<and> length (blender_poses b') = num_poses ?st' \<and>
            (\<forall>(i, m) \<in> set (blender_poses b'). m \<noteq> [])"
    if "(n', b') \<in> set (solver_blenders ?st')" for n' b'
  proof -
    from that obtain b where b: "(n', b) \<in> set ?bs" and b': "b' = ?g b"
      unfolding sb by auto
    from each[OF b] show ?thesis unfolding b' np by blast
  qed
  have lock': "bindings_in_lockstep ?st'"
    unfolding bindings_in_lockstep_def using d1 d2 by blast
  show ?thesis using res np inv' lock' by blast
qed

text \<open>
  C6, as stated (for every solver, \<^verbatim>\<open>delete_pose\<close> raises the exception of the kind
  \<open>PoseNotFound\<close> when no pose has the name, and otherwise removes exactly that pose),
  fails on solvers that the code produces.  After \<^verbatim>\<open>add_driven_transforms\<close> on a solver
  with two poses, the new pose blender records the pose at index 0 only; \<^verbatim>\<open>delete_pose\<close>
  of the pose at index 1 then raises \<open>IndexError\<close> from \<^verbatim>\<open>poses.pop(index)\<close>, after the
  poses of the solver have been removed, and leaves no pose at all.  After
  \<^verbatim>\<open>add_driver\<close> on a solver with one pose, \<^verbatim>\<open>has_pose\<close> raises \<open>InvalidPose\<close> with
  \<^verbatim>\<open>Invalid Driver Indices\<close>, and so does \<^verbatim>\<open>delete_pose\<close> of a name that no pose has.
\<close>

theorem delete_pose_counterexample:
  "add_driven_transforms wrist_scene ''arm_l_UERBFSolver'' example_solver [Some ''J_l_wrist'']
       False = (None, rebound_solver) \<and>
   has_pose rebound_solver ''raised'' = Inr True \<and>
   num_poses rebound_solver = 2 \<and>
   fst (delete_pose (transforms wrist_scene) rebound_solver ''raised'') = Some IndexError \<and>
   num_poses (snd (delete_pose (transforms wrist_scene) rebound_solver ''raised'')) = 0 \<and>
   pose_index widened_solver ''raised'' = - 1 \<and>
   delete_pose (transforms example_scene) widened_solver ''raised'' =
     (Some (InvalidPose ''Invalid Driver Indices''), widened_solver) \<and>
   \<not> PoseNotFound ''raised'' (InvalidPose ''Invalid Driver Indices'')"
proof -
  have a: "add_driven_transforms wrist_scene ''arm_l_UERBFSolver'' example_solver
             [Some ''J_l_wrist''] False = (None, rebound_solver)"
    by (simp add: add_driven_transforms_def wrist_scene_def example_scene_def objExists_def
        find_by_transform_def driven_nodes_def solver_blenders_def example_solver_def
        other_solver_def example_blender_def other_blender_def xform_query_def
        set_blender_edit_def rebound_solver_def wrist_blender_def Let_def)
  have b: "num_poses rebound_solver = 2"
    by (simp add: num_poses_def rebound_solver_def example_solver_def)
  have ps: "poses rebound_solver =
     Inr [(''default'',
           \<lparr>p_drivers = [identity_matrix], p_controllers = [],
            p_driven = [(Some ''J_l_elbow'', identity_matrix), (Some ''J_l_wrist'', identity_matrix)],
            p_target_enable = True\<rparr>),
          (''raised'',
           \<lparr>p_drivers = [quarter_turn_z], p_controllers = [],
            p_driven = [(Some ''J_l_elbow'', quarter_turn_z), (Some ''J_l_wrist'', identity_matrix)],
            p_target_enable = True\<rparr>)]"
    by (simp add: poses_def rebound_solver_def example_solver_def pose_def pose_index_def
        element_at_def multiIndices_def num_drivers_def num_controllers_def example_blender_def
        wrist_blender_def get_pose_def Let_def)
  have c: "delete_pose (transforms wrist_scene) rebound_solver ''raised'' =
       (Some IndexError,
        rebound_solver\<lparr>targets := [],
          poseBlenders :=
            Some [(''J_l_elbow_UEPoseBlenderNode'', example_blender\<lparr>blender_poses := [(0, identity_matrix)]\<rparr>),
                  (''J_l_wrist_UEPoseBlenderNode'', wrist_blender\<lparr>blender_poses := []\<rparr>)]\<rparr>)"
    unfolding delete_pose_def rebound_has_pose ps
    by (simp add: pose_index_def rebound_solver_def example_solver_def removeMultiInstance_def
        on_pose_blenders_def blender_delete_pose_def get_poses_def example_blender_def
        wrist_blender_def list_pop_def set_pose_def upt_rec Let_def)
  have d: "pose_index widened_solver ''raised'' = - 1"
    by (simp add: pose_index_def widened_solver_def other_solver_def)
  have e: "delete_pose (transforms example_scene) widened_solver ''raised'' =
     (Some (InvalidPose ''Invalid Driver Indices''), widened_solver)"
    by (simp add: delete_pose_def widened_pose_unreadable)
  show ?thesis
    using a b c d e rebound_has_pose by (simp add: PoseNotFound_def num_poses_def)
qed


text \<open>
  C6, amended.  When \<^verbatim>\<open>has_pose\<close> raises, \<^verbatim>\<open>delete_pose\<close> raises the same exception
  and leaves the solver as it was.  When \<^verbatim>\<open>has_pose\<close> returns \<^verbatim>\<open>False\<close>,
  \<^verbatim>\<open>delete_pose\<close> raises the exception of the kind \<open>PoseNotFound\<close> and leaves the
  solver as it was.  On a solver that satisfies the invariants I1, I2, I4 and I5 of the
  data model, when the pose exists, at index \<open>k\<close>: \<^verbatim>\<open>delete_pose\<close> returns; there is
  one pose less and no pose of that name; the remaining poses are, in their order, at the
  indices \<open>0 .. n-2\<close> with the names, driver matrices, controller matrices and enabled
  flags they had; each pose blender has lost exactly the matrix it recorded at index
  \<open>k\<close>, the others being at the indices \<open>0 .. n-2\<close> in their order; nothing else of the
  solver changes; and the solver satisfies the invariants again.
\<close>

theorem delete_pose_contract:
  "(\<forall>e. has_pose s pose_name = Inl e \<longrightarrow> delete_pose tr s pose_name = (Some e, s)) \<and>
   (has_pose s pose_name = Inr False \<longrightarrow>
      (\<exists>e. delete_pose tr s pose_name = (Some e, s) \<and> PoseNotFound pose_name e)) \<and>
   (pose_invariants s \<and> bindings_in_lockstep s \<and> has_pose s pose_name = Inr True \<longrightarrow>
      (\<exists>k s'. pose_index s pose_name = int k \<and>
              delete_pose tr s pose_name = (None, s') \<and>
              num_poses s' + 1 = num_poses s \<and>
              has_pose s' pose_name = Inr False \<and>
              targets s' = enumerate_int (remove_at k (map snd (targets s))) \<and>
              solver_blenders s' = map (\<lambda>(n, b). (n, drop_recorded k b)) (solver_blenders s) \<and>
              s' = s\<lparr>targets := targets s', poseBlenders := poseBlenders s'\<rparr> \<and>
              pose_invariants s' \<and> bindings_in_lockstep s'))"
proof (intro conjI impI allI)
  fix e assume "has_pose s pose_name = Inl e"
  then show "delete_pose tr s pose_name = (Some e, s)"
    by (simp add: delete_pose_def)
next
  assume "has_pose s pose_name = Inr False"
  then show "\<exists>e. delete_pose tr s pose_name = (Some e, s) \<and> PoseNotFound pose_name e"
    by (simp add: delete_pose_def PoseNotFound_def)
next
  assume a: "pose_invariants s \<and> bindings_in_lockstep s \<and> has_pose s pose_name = Inr True"
  then have inv: "pose_invariants s" and lock: "bindings_in_lockstep s"
    and hp: "has_pose s pose_name = Inr True" by simp_all
  from has_pose_index[OF inv hp] obtain k where k: "k < length (targets s)"
    and nm: "targetName (snd (targets s ! k)) = pose_name" and idx: "pose_index s pose_name = int k"
    by blast
  let ?s' = "s\<lparr>targets := enumerate_int (remove_at k (map snd (targets s))),
                poseBlenders := map_option (map (\<lambda>(n, b). (n, drop_recorded k b))) (poseBlenders s)\<rparr>"
  have del: "delete_pose tr s pose_name = (None, ?s')"
    using delete_pose_state[OF inv lock k nm] .
  have np: "num_poses ?s' + 1 = num_poses s"
    using k by (simp add: num_poses_def enumerate_int_enum length_remove_at)
  have inv': "pose_invariants ?s'" using pose_invariants_after_delete[OF inv k] .
  have lock': "bindings_in_lockstep ?s'" using lockstep_after_delete[OF lock k] .
  have dn: "distinct (map targetName (map snd (targets s)))"
    using inv by (simp add: pose_invariants_alt)
  have "pose_name \<notin> set (remove_at k (map targetName (map snd (targets s))))"
  proof -
    let ?ns = "map targetName (map snd (targets s))"
    have kn: "k < length ?ns" using k by simp
    have "?ns ! k = pose_name" using nm k by simp
    moreover have "remove_at k ?ns = filter (\<lambda>x. x \<noteq> ?ns ! k) ?ns"
      using filter_distinct_remove[of "\<lambda>x. x" ?ns k] dn kn by simp
    ultimately show ?thesis by simp
  qed
  then have hp': "has_pose ?s' pose_name = Inr False"
    using has_pose_readable[OF inv', of pose_name]
    by (simp add: enumerate_int_enum map_remove_at flip: map_map)
  have bl: "solver_blenders ?s' = map (\<lambda>(n, b). (n, drop_recorded k b)) (solver_blenders s)"
    by (simp add: solver_blenders_def split: option.splits)
  have eq: "?s' = s\<lparr>targets := targets ?s', poseBlenders := poseBlenders ?s'\<rparr>" by simp
  have tg: "targets ?s' = enumerate_int (remove_at k (map snd (targets s)))" by simp
  show "\<exists>k s'. pose_index s pose_name = int k \<and>
              delete_pose tr s pose_name = (None, s') \<and>
              num_poses s' + 1 = num_poses s \<and>
              has_pose s' pose_name = Inr False \<and>
              targets s' = enumerate_int (remove_at k (map snd (targets s))) \<and>
              solver_blenders s' = map (\<lambda>(n, b). (n, drop_recorded k b)) (solver_blenders s) \<and>
              s' = s\<lparr>targets := targets s', poseBlenders := poseBlenders s'\<rparr> \<and>
              pose_invariants s' \<and> bindings_in_lockstep s'"
    using idx del np hp' tg bl eq inv' lock' by (intro exI[of _ k] exI[of _ ?s'] conjI)
qed

theorem delete_pose_contract_witness:
  "has_pose widened_solver ''raised'' = Inl (InvalidPose ''Invalid Driver Indices'') \<and>
   delete_pose (transforms example_scene) widened_solver ''raised'' =
     (Some (InvalidPose ''Invalid Driver Indices''), widened_solver) \<and>
   has_pose example_solver ''elbow'' = Inr False \<and>
   delete_pose (transforms example_scene) example_solver ''elbow'' =
     (Some (InvalidPose ''Pose elbow does not exist.''), example_solver) \<and>
   pose_invariants example_solver \<and> bindings_in_lockstep example_solver \<and>
   has_pose example_solver ''raised'' = Inr True \<and>
   fst (delete_pose (transforms example_scene) example_solver ''raised'') = None \<and>
   num_poses (snd (delete_pose (transforms example_scene) example_solver ''raised'')) = 1 \<and>
   has_pose (snd (delete_pose (transforms example_scene) example_solver ''raised'')) ''raised''
     = Inr False \<and>
   solver_blenders (snd (delete_pose (transforms example_scene) example_solver ''raised'')) =
     [(''J_l_elbow_UEPoseBlenderNode'', example_blender\<lparr>blender_poses := [(0, identity_matrix)]\<rparr>)] \<and>
   pose_invariants (snd (delete_pose (transforms example_scene) example_solver ''raised'')) \<and>
   bindings_in_lockstep (snd (delete_pose (transforms example_scene) example_solver ''raised''))"
proof -
  let ?tr = "transforms example_scene"
  have h1: "has_pose example_solver ''elbow'' = Inr False"
    by (simp add: has_pose_def example_poses)
  have h2: "has_pose example_solver ''raised'' = Inr True"
    by (simp add: has_pose_def example_poses)
  note h3 = widened_pose_unreadable
  note inv = example_invariants
  from delete_pose_contract[of widened_solver "''raised''" ?tr] h3
  have p0: "delete_pose ?tr widened_solver ''raised'' =
     (Some (InvalidPose ''Invalid Driver Indices''), widened_solver)"
    by blast
  from delete_pose_contract[of example_solver "''elbow''" ?tr] h1
  have p1: "delete_pose ?tr example_solver ''elbow'' =
     (Some (InvalidPose ''Pose elbow does not exist.''), example_solver)"
    by (auto simp: PoseNotFound_def)
  from delete_pose_contract[of example_solver "''raised''" ?tr] inv h2
  obtain k s' where idx: "pose_index example_solver ''raised'' = int k"
    and del: "delete_pose ?tr example_solver ''raised'' = (None, s')"
    and np: "num_poses s' + 1 = num_poses example_solver"
    and hp: "has_pose s' ''raised'' = Inr False"
    and bl: "solver_blenders s' = map (\<lambda>(n, b). (n, drop_recorded k b)) (solver_blenders example_solver)"
    and inv': "pose_invariants s'" "bindings_in_lockstep s'"
    by blast
  have "pose_index example_solver ''raised'' = 1"
    by (simp add: pose_index_def example_solver_def)
  with idx have k: "k = 1" by simp
  have bl': "solver_blenders s' =
     [(''J_l_elbow_UEPoseBlenderNode'', example_blender\<lparr>blender_poses := [(0, identity_matrix)]\<rparr>)]"
    unfolding bl k
    by (simp add: solver_blenders_def example_solver_def drop_recorded_def example_blender_def
        remove_at_def enumerate_int_def)
  show ?thesis
    using h1 h2 h3 inv p0 p1 del np hp bl' inv' by (simp add: example_num_poses)
qed

section \<open>The serialization round trip\<close>

































end
